theory Spec2Isabelle
  imports Main "HOL-Library.Char_ord" "HOL-Library.List_Lexorder" "HOL-Library.Product_Lexorder"
    "HOL-Library.Multiset" "HOL-Library.Sublist"
begin

section \<open>Python primitives used by zone.py\<close>

text \<open>
  Strings are lists of characters; one \<^typ>\<open>char\<close> stands for one code point of the
  Python string, restricted to the code points below 256. The character classes below are
  those of Python on that range: \<^verbatim>\<open>str.isspace\<close> (the white space of \<^verbatim>\<open>split\<close> and
  \<^verbatim>\<open>strip\<close>), \<^verbatim>\<open>str.isdigit\<close> (the decimal digits and the superscripts U+00B2, U+00B3,
  U+00B9), the decimal digits that \<^verbatim>\<open>int\<close> reads, and the white space that \<^verbatim>\<open>int\<close>
  drops (it keeps the separators U+001C to U+001F).
\<close>

datatype error = KeyError | ValueError | TypeError | AttributeError | IndexError

definition isspace :: "char \<Rightarrow> bool" where
  "isspace c = (of_char c \<in> {9, 10, 11, 12, 13, 28, 29, 30, 31, 32, 133, 160 :: nat})"

definition isdecimal :: "char \<Rightarrow> bool" where
  "isdecimal c = (48 \<le> (of_char c :: nat) \<and> (of_char c :: nat) \<le> 57)"

definition isdigit :: "char \<Rightarrow> bool" where
  "isdigit c = (isdecimal c \<or> of_char c \<in> {178, 179, 185 :: nat})"

definition int_space :: "char \<Rightarrow> bool" where
  "int_space c = (of_char c \<in> {9, 10, 11, 12, 13, 32, 133, 160 :: nat})"

definition str_isdigit :: "string \<Rightarrow> bool" where
  "str_isdigit s = (s \<noteq> [] \<and> list_all isdigit s)"

text \<open>
  \<^verbatim>\<open>str.upper\<close>, one character at a time: the letters a to z and the Latin-1 letters
  U+00E0 to U+00FE (without the division sign U+00F7) move down by 32, and the sharp s
  U+00DF becomes the two letters SS, so the result can be longer than the argument. The
  capitals of U+00B5 and U+00FF are U+039C and U+0178, above the range of \<^typ>\<open>char\<close>:
  these two characters are kept, one character for one as in Python.
\<close>

definition upper_char :: "char \<Rightarrow> string" where
  "upper_char c =
     (if (97 \<le> (of_char c :: nat) \<and> (of_char c :: nat) \<le> 122) \<or>
         (224 \<le> (of_char c :: nat) \<and> (of_char c :: nat) \<le> 254 \<and> (of_char c :: nat) \<noteq> 247)
      then [char_of ((of_char c :: nat) - 32)]
      else if (of_char c :: nat) = 223 then ''SS''
      else [c])"

definition upper :: "string \<Rightarrow> string" where
  "upper s = concat (map upper_char s)"

definition rstrip :: "string \<Rightarrow> string" where
  "rstrip s = rev (dropWhile isspace (rev s))"

definition strip :: "string \<Rightarrow> string" where
  "strip s = dropWhile isspace (rstrip s)"

text \<open>\<^verbatim>\<open>s.split()\<close>: the maximal runs of non-white-space characters, in order.\<close>

fun split_acc :: "string \<Rightarrow> string \<Rightarrow> string list" where
  "split_acc cur [] = (if cur = [] then [] else [rev cur])"
| "split_acc cur (c # cs) =
     (if isspace c then (if cur = [] then split_acc [] cs else rev cur # split_acc [] cs)
      else split_acc (c # cur) cs)"

definition split_ws :: "string \<Rightarrow> string list" where
  "split_ws s = split_acc [] s"

text \<open>\<^verbatim>\<open>s.split(d)\<close> for a one-character separator: never the empty list.\<close>

fun split_char :: "char \<Rightarrow> string \<Rightarrow> string list" where
  "split_char d [] = [[]]"
| "split_char d (c # cs) =
     (if c = d then [] # split_char d cs
      else (case split_char d cs of [] \<Rightarrow> [[c]] | w # ws \<Rightarrow> (c # w) # ws))"

text \<open>\<^verbatim>\<open>s.split(ab)\<close> for a two-character separator, scanning from the left.\<close>

fun split2 :: "char \<Rightarrow> char \<Rightarrow> string \<Rightarrow> string \<Rightarrow> string list" where
  "split2 a b cur [] = [rev cur]"
| "split2 a b cur [c] = [rev (c # cur)]"
| "split2 a b cur (c # d # cs) =
     (if c = a \<and> d = b then rev cur # split2 a b [] cs
      else split2 a b (c # cur) (d # cs))"

definition startswith :: "string \<Rightarrow> string \<Rightarrow> bool" where
  "startswith s p = (take (length p) s = p)"

text \<open>\<^verbatim>\<open>sub in s\<close>: \<open>sub\<close> occurs in \<open>s\<close> as a contiguous substring.\<close>

fun py_in :: "string \<Rightarrow> string \<Rightarrow> bool" where
  "py_in sub [] = (sub = [])"
| "py_in sub (c # cs) = (startswith (c # cs) sub \<or> py_in sub cs)"

text \<open>\<^verbatim>\<open>s[:k]\<close>: a negative \<open>k\<close> counts from the end.\<close>

definition py_take :: "int \<Rightarrow> 'a list \<Rightarrow> 'a list" where
  "py_take k s = (if 0 \<le> k then take (nat k) s else take (nat (int (length s) + k)) s)"

text \<open>\<^verbatim>\<open>str(n)\<close> for an integer: decimal digits, with a minus sign when negative.\<close>

definition digit_char :: "nat \<Rightarrow> char" where
  "digit_char d = char_of (48 + d)"

fun str_nat :: "nat \<Rightarrow> string" where
  "str_nat n = (if n < 10 then [digit_char n] else str_nat (n div 10) @ [digit_char (n mod 10)])"

declare str_nat.simps [simp del]

definition str_int :: "int \<Rightarrow> string" where
  "str_int i = (if i < 0 then CHR ''-'' # str_nat (nat (- i)) else str_nat (nat i))"

text \<open>
  \<^verbatim>\<open>int(s)\<close> for a string: surrounding white space is dropped (tab to carriage return,
  space, U+0085 and U+00A0), one sign is allowed, and the decimal digits may be grouped by
  single underscores; anything else is a ValueError (\<open>None\<close>).
\<close>

definition digit_val :: "char \<Rightarrow> nat" where
  "digit_val c = of_char c - 48"

fun parse_digits :: "nat \<Rightarrow> bool \<Rightarrow> string \<Rightarrow> nat option" where
  "parse_digits acc pd [] = (if pd then Some acc else None)"
| "parse_digits acc pd (c # cs) =
     (if isdecimal c then parse_digits (acc * 10 + digit_val c) True cs
      else if c = CHR ''_'' \<and> pd then parse_digits acc False cs
      else None)"

definition int_strip :: "string \<Rightarrow> string" where
  "int_strip s = dropWhile int_space (rev (dropWhile int_space (rev s)))"

definition int_of_str :: "string \<Rightarrow> int option" where
  "int_of_str s =
     (case int_strip s of
        [] \<Rightarrow> None
      | c # r \<Rightarrow>
          if c = CHR ''-'' then map_option (\<lambda>n. - int n) (parse_digits 0 False r)
          else if c = CHR ''+'' then map_option int (parse_digits 0 False r)
          else map_option int (parse_digits 0 False (c # r)))"

text \<open>The JSON values that occur in the fields \<^verbatim>\<open>id\<close> and \<^verbatim>\<open>pep\<close>, and in talkgroup data.\<close>

datatype json = JNull | JInt int | JStr string

fun py_str :: "json \<Rightarrow> string" where
  "py_str JNull = ''None''"
| "py_str (JInt i) = str_int i"
| "py_str (JStr s) = s"

fun py_int :: "json \<Rightarrow> error + int" where
  "py_int JNull = Inl TypeError"
| "py_int (JInt i) = Inr i"
| "py_int (JStr s) = (case int_of_str s of None \<Rightarrow> Inl ValueError | Some i \<Rightarrow> Inr i)"

section \<open>Repeater records and the command line\<close>

text \<open>
  One element of the repeater list, with the keys zone.py reads. The coordinates are only
  passed to the distance collaborator, which is a parameter of the selection below. The
  key \<^verbatim>\<open>pep\<close> is read only when the power flag is given: \<open>None\<close> is a record without
  that key.
\<close>

record item =
  id :: json
  callsign :: string
  rx :: string
  tx :: string
  colorcode :: string
  city :: string
  pep :: "json option"
  last_seen :: string

text \<open>A retained record: the callsign is the normalized one and \<^verbatim>\<open>turn\<close> is set.\<close>

record repeater = item +
  turn :: nat

section \<open>Channel names (format\_channel)\<close>

definition city_abbr :: "string \<Rightarrow> string" where
  "city_abbr city_field =
     (let city = strip (hd (split_char CHR '','' city_field))
      in if length city \<ge> 3 then upper (take 3 city) else upper (take 3 (city @ ''XXX'')))"

text \<open>The body of the loop \<^verbatim>\<open>for slot in [1, 2]\<close> of format\_channel.\<close>

definition ch_alias :: "string \<Rightarrow> string \<Rightarrow> nat \<Rightarrow> string" where
  "ch_alias cs abbr slot =
     (let base_name = cs @ ''.'' @ abbr;
          ts_suffix = '' TS'' @ str_nat slot
      in if length (base_name @ ts_suffix) > 16
         then (let max_callsign_len = 16 - int (length (''.'' @ abbr @ ts_suffix));
                   truncated_callsign = py_take max_callsign_len cs
               in truncated_callsign @ ''.'' @ abbr @ ts_suffix)
         else base_name @ ts_suffix)"

text \<open>One entry of \<^verbatim>\<open>output_list\<close>: [name, tx, rx, colorcode, city, last\_seen, url].\<close>

record out_row =
  o_name :: string
  o_rx :: string
  o_tx :: string
  o_cc :: string
  o_city :: string
  o_last_seen :: string
  o_url :: string

definition repeater_url :: "json \<Rightarrow> string" where
  "repeater_url i = ''https://brandmeister.network/?page=repeater&id='' @ py_str i"

definition format_channel_slot :: "repeater \<Rightarrow> nat \<Rightarrow> out_row" where
  "format_channel_slot it slot =
     \<lparr>o_name = ch_alias (callsign it) (city_abbr (city it)) slot,
      o_rx = tx it, o_tx = rx it, o_cc = colorcode it, o_city = city it,
      o_last_seen = last_seen it, o_url = repeater_url (id it)\<rparr>"

definition format_channel :: "repeater \<Rightarrow> out_row list \<Rightarrow> out_row list" where
  "format_channel it output_list = output_list @ map (format_channel_slot it) [1, 2]"

section \<open>Selection (filter\_list)\<close>

datatype band = Vhf | Uhf | Both

datatype seltype = Mcc | Qth | Gps

text \<open>
  \<^verbatim>\<open>args.mcc\<close> after the country-code resolution at program start: absent, one prefix,
  or several prefixes.
\<close>

datatype mcc_arg = MccNone | MccStr string | MccList "string list"

record args =
  a_band :: band
  a_type :: seltype
  a_mcc :: mcc_arg
  a_pep :: "string option"
  a_six :: bool
  a_callsign :: "string option"
  a_zone_capacity :: int
  a_name :: string
  a_talkgroups :: bool
  a_city_prefix :: bool

definition band_ok :: "band \<Rightarrow> item \<Rightarrow> bool" where
  "band_ok b it =
     (b = Both \<or> (b = Vhf \<and> startswith (rx it) ''1'') \<or> (b = Uhf \<and> startswith (rx it) ''4''))"

definition mcc_ok :: "mcc_arg \<Rightarrow> item \<Rightarrow> error + bool" where
  "mcc_ok m it =
     (case m of
        MccList ms \<Rightarrow> Inr (list_ex (\<lambda>p. startswith (py_str (id it)) p) ms)
      | MccStr p \<Rightarrow> Inr (startswith (py_str (id it)) p)
      | MccNone \<Rightarrow> Inl TypeError)"

text \<open>
  The power filter, lines 129 to 135: \<open>Inr True\<close> when the record is skipped.
  \<^verbatim>\<open>args.pep\<close> is \<open>None\<close> when the flag is absent, \<open>Some ''0''\<close> when it is given
  without a value, and the given text otherwise. Reading \<^verbatim>\<open>item['pep']\<close> of a record
  without that key is a KeyError.
\<close>

definition pep_skip :: "string option \<Rightarrow> json option \<Rightarrow> error + bool" where
  "pep_skip ap pep_field =
     (case ap of
        None \<Rightarrow> Inr False
      | Some a \<Rightarrow>
          if a = [] then Inr False
          else (case pep_field of
            None \<Rightarrow> Inl KeyError
          | Some p \<Rightarrow>
              if \<not> str_isdigit (py_str p) then Inr True
              else if py_str p = ''0'' then Inr True
              else if a \<noteq> ''0'' then
                (case py_int p of
                   Inl e \<Rightarrow> Inl e
                 | Inr v \<Rightarrow>
                     (case int_of_str a of None \<Rightarrow> Inl ValueError | Some t \<Rightarrow> Inr (v < t)))
              else Inr False))"

definition callsign_ok :: "string option \<Rightarrow> item \<Rightarrow> bool" where
  "callsign_ok ac it = (case ac of None \<Rightarrow> True | Some s \<Rightarrow> s = [] \<or> py_in s (callsign it))"

text \<open>
  The filters of the loop body in source order; \<open>far it\<close> stands for
  \<^verbatim>\<open>check_distance(qth_coords, (item['lat'], item['lng'])) > args.radius\<close>.
  \<open>Inr False\<close> is \<^verbatim>\<open>continue\<close>.
\<close>

definition passes :: "(item \<Rightarrow> bool) \<Rightarrow> args \<Rightarrow> item \<Rightarrow> error + bool" where
  "passes far a it =
     (if \<not> band_ok (a_band a) it then Inr False
      else (case (if a_type a = Mcc then mcc_ok (a_mcc a) it else Inr True) of
        Inl e \<Rightarrow> Inl e
      | Inr False \<Rightarrow> Inr False
      | Inr True \<Rightarrow>
          (if (a_type a = Qth \<or> a_type a = Gps) \<and> far it then Inr False
           else (case pep_skip (a_pep a) (pep it) of
             Inl e \<Rightarrow> Inl e
           | Inr True \<Rightarrow> Inr False
           | Inr False \<Rightarrow>
               (if a_six a \<and> length (py_str (id it)) \<noteq> 6 then Inr False
                else Inr (callsign_ok (a_callsign a) it))))))"

text \<open>
  Lines 143 to 146: an empty callsign is replaced by the id as it is, and the first
  white-space separated token is taken. An integer has no \<^verbatim>\<open>split\<close>, and an empty token
  list has no first element.
\<close>

definition normalize :: "item \<Rightarrow> error + string" where
  "normalize it =
     (case (if callsign it = [] then id it else JStr (callsign it)) of
        JStr s \<Rightarrow> (case split_ws s of [] \<Rightarrow> Inl IndexError | t # _ \<Rightarrow> Inr t)
      | _ \<Rightarrow> Inl AttributeError)"

definition retain :: "item \<Rightarrow> string \<Rightarrow> nat \<Rightarrow> repeater" where
  "retain it cs n =
     \<lparr>id = id it, callsign = cs, rx = rx it, tx = tx it, colorcode = colorcode it,
      city = city it, pep = pep it, last_seen = last_seen it, turn = n\<rparr>"

definition same_triple :: "item \<Rightarrow> string \<Rightarrow> repeater \<Rightarrow> bool" where
  "same_triple it cs e = (rx e = rx it \<and> tx e = tx it \<and> callsign e = cs)"

fun filter_loop ::
  "(item \<Rightarrow> bool) \<Rightarrow> args \<Rightarrow> item list \<Rightarrow> repeater list \<Rightarrow> (string \<rightharpoonup> nat)
     \<Rightarrow> error + (repeater list \<times> (string \<rightharpoonup> nat))" where
  "filter_loop far a [] filtered_list existing = Inr (filtered_list, existing)"
| "filter_loop far a (it # rest) filtered_list existing =
     (case passes far a it of
        Inl e \<Rightarrow> Inl e
      | Inr False \<Rightarrow> filter_loop far a rest filtered_list existing
      | Inr True \<Rightarrow>
          (case normalize it of
             Inl e \<Rightarrow> Inl e
           | Inr cs \<Rightarrow>
               if list_ex (same_triple it cs) filtered_list
               then filter_loop far a rest filtered_list existing
               else (let n = (case existing cs of None \<Rightarrow> 0 | Some k \<Rightarrow> k) + 1
                     in filter_loop far a rest (filtered_list @ [retain it cs n])
                          (existing(cs \<mapsto> n)))))"

text \<open>
  \<^verbatim>\<open>sorted(json_list, key=lambda k: (k['callsign'], int(k["id"])))\<close>: the keys are
  computed for every element first, the first failing conversion raises, and the sort is
  stable.
\<close>

fun sort_keys :: "item list \<Rightarrow> error + ((string \<times> int) \<times> item) list" where
  "sort_keys [] = Inr []"
| "sort_keys (k # ks) =
     (case py_int (id k) of
        Inl e \<Rightarrow> Inl e
      | Inr i \<Rightarrow> (case sort_keys ks of Inl e \<Rightarrow> Inl e | Inr r \<Rightarrow> Inr (((callsign k, i), k) # r)))"

definition sorted_list :: "item list \<Rightarrow> error + item list" where
  "sorted_list json_list =
     (case sort_keys json_list of Inl e \<Rightarrow> Inl e | Inr ks \<Rightarrow> Inr (map snd (sort_key fst ks)))"

definition filter_list :: "(item \<Rightarrow> bool) \<Rightarrow> args \<Rightarrow> item list \<Rightarrow> error + repeater list" where
  "filter_list far a json_list =
     (case sorted_list json_list of
        Inl e \<Rightarrow> Inl e
      | Inr sl \<Rightarrow> (case filter_loop far a sl [] Map.empty of Inl e \<Rightarrow> Inl e | Inr r \<Rightarrow> Inr (fst r)))"

text \<open>
  The vocabulary of the selection's properties. The triple of a record is its pair of
  frequencies with its callsign. The candidates are the records of the sorted list that
  pass every filter, with the callsign normalized, in the order of the sorted list. The
  sort key of a record is its callsign as read, then its id as an integer.
\<close>

definition triple :: "'a item_scheme \<Rightarrow> string \<times> string \<times> string" where
  "triple r = (rx r, tx r, callsign r)"

fun candidates :: "(item \<Rightarrow> bool) \<Rightarrow> args \<Rightarrow> item list \<Rightarrow> item list" where
  "candidates far a [] = []"
| "candidates far a (it # rest) =
     (case passes far a it of
        Inr True \<Rightarrow>
          (case normalize it of
             Inr cs \<Rightarrow> it\<lparr>callsign := cs\<rparr> # candidates far a rest
           | Inl e \<Rightarrow> candidates far a rest)
      | _ \<Rightarrow> candidates far a rest)"

definition id_int :: "item \<Rightarrow> int" where
  "id_int it = (case py_int (id it) of Inr i \<Rightarrow> i | Inl e \<Rightarrow> 0)"

definition sort_key_of :: "item \<Rightarrow> string \<times> int" where
  "sort_key_of it = (callsign it, id_int it)"

text \<open>
  The counter of a callsign in \<^verbatim>\<open>existing\<close> (0 when the key is absent), and the
  invariant of the loop that relates it to the turns given so far.
\<close>

definition cnt :: "(string \<rightharpoonup> nat) \<Rightarrow> string \<Rightarrow> nat" where
  "cnt ex c = (case ex c of None \<Rightarrow> 0 | Some k \<Rightarrow> k)"

definition turns_ok :: "repeater list \<Rightarrow> (string \<rightharpoonup> nat) \<Rightarrow> bool" where
  "turns_ok fl ex = (\<forall>c. map turn (filter (\<lambda>r. callsign r = c) fl) = [1 ..< Suc (cnt ex c)])"

text \<open>
  The invariant of the loop for the deduplication: \<open>done\<close> are the candidates seen so
  far. The retained triples are distinct, every retained record is the first candidate
  with its triple, and the triple of every candidate is retained.
\<close>

definition dedup_ok :: "repeater list \<Rightarrow> item list \<Rightarrow> bool" where
  "dedup_ok fl done =
     (distinct (map triple fl) \<and>
      (\<forall>r \<in> set fl. find (\<lambda>c. triple c = triple r) done = Some (item.truncate r)) \<and>
      (\<forall>c \<in> set done. triple c \<in> triple ` set fl))"

text \<open>The number that a run of decimal digits writes.\<close>

definition dec_value :: "string \<Rightarrow> nat" where
  "dec_value s = foldl (\<lambda>acc c. acc * 10 + digit_val c) 0 s"

section \<open>Standard mode\<close>

text \<open>\<^verbatim>\<open>range(0, n, c)\<close>: a zero step raises, a negative step gives no index.\<close>

function range_from :: "nat \<Rightarrow> nat \<Rightarrow> nat \<Rightarrow> nat list" where
  "range_from i n c = (if c = 0 \<or> n \<le> i then [] else i # range_from (i + c) n c)"
  by pat_completeness auto
termination
  by (relation "measure (\<lambda>(i, n, c). n - i)") auto

declare range_from.simps [simp del]

definition py_range0 :: "nat \<Rightarrow> int \<Rightarrow> error + nat list" where
  "py_range0 n c =
     (if c = 0 then Inl ValueError else if c < 0 then Inr [] else Inr (range_from 0 n (nat c)))"

text \<open>
  \<^verbatim>\<open>[filtered_list[i:i + c] for i in range(0, len(filtered_list), c)]\<close>; within the
  comprehension \<open>c\<close> is positive and \<open>i\<close> is inside the list.
\<close>

definition channel_chunks :: "int \<Rightarrow> 'a list \<Rightarrow> error + 'a list list" where
  "channel_chunks c filtered_list =
     (case py_range0 (length filtered_list) c of
        Inl e \<Rightarrow> Inl e
      | Inr is \<Rightarrow> Inr (map (\<lambda>i. take (nat c) (drop i filtered_list)) is))"

text \<open>
  process\_channels, the branch for standard mode: \<^verbatim>\<open>output_list\<close> is set to the empty
  list at the start of every chunk, and what is left after the last chunk is what
  write\_channels\_csv reads.
\<close>

definition process_chunk :: "out_row list \<Rightarrow> repeater list \<Rightarrow> out_row list" where
  "process_chunk output_list chunk = foldl (\<lambda>out it. format_channel it out) [] chunk"

definition process_channels_standard :: "args \<Rightarrow> repeater list \<Rightarrow> error + out_row list" where
  "process_channels_standard a filtered_list =
     (case channel_chunks (a_zone_capacity a) filtered_list of
        Inl e \<Rightarrow> Inl e
      | Inr chunks \<Rightarrow> Inr (foldl process_chunk [] chunks))"

section \<open>Talkgroup mode (process\_channels)\<close>

text \<open>
  The collaborators are parameters: \<open>tgs i\<close> is what get\_talkgroup\_channels returns for
  the repeater id \<open>i\<close> (the pairs of talkgroup and slot, the empty list after a failed
  request), and \<open>tg_name n\<close> is the \<^verbatim>\<open>Name\<close> entry of the talkgroup service's answer for
  the id text \<open>n\<close> (\<open>None\<close> when the request fails or the entry is missing). The file
  talkgroups.csv is a list of rows of cells, \<open>None\<close> when it cannot be opened.
\<close>

type_synonym tg_lookup = "json \<Rightarrow> (json \<times> json) list"
type_synonym name_lookup = "string \<Rightarrow> string option"
type_synonym csv = "string list list"

definition unique_talkgroups :: "tg_lookup \<Rightarrow> repeater list \<Rightarrow> json list" where
  "unique_talkgroups tgs filtered_list =
     remdups (concat (map (\<lambda>it. map fst (tgs (id it))) filtered_list))"

text \<open>
  \<^verbatim>\<open>sorted\<close> on the set of talkgroup ids: integers are ordered by value, strings
  by code points, and comparing values of two kinds is a TypeError.
\<close>

fun the_int :: "json \<Rightarrow> int" where
  "the_int (JInt i) = i"
| "the_int _ = 0"

definition is_int :: "json \<Rightarrow> bool" where
  "is_int v = (case v of JInt _ \<Rightarrow> True | _ \<Rightarrow> False)"

definition is_str :: "json \<Rightarrow> bool" where
  "is_str v = (case v of JStr _ \<Rightarrow> True | _ \<Rightarrow> False)"

definition sorted_json :: "json list \<Rightarrow> error + json list" where
  "sorted_json vs =
     (if length vs \<le> 1 then Inr vs
      else if list_all is_int vs then Inr (sort_key the_int vs)
      else if list_all is_str vs then Inr (sort_key py_str vs)
      else Inl TypeError)"

definition existing_tg_ids :: "csv \<Rightarrow> string list" where
  "existing_tg_ids rows =
     map (\<lambda>row. row ! 1) (filter (\<lambda>row. length row > 1 \<and> row ! 1 \<noteq> []) (drop 1 rows))"

definition fetch_name :: "name_lookup \<Rightarrow> string \<Rightarrow> string" where
  "fetch_name tg_name numeric_tg_id =
     (case tg_name numeric_tg_id of
        None \<Rightarrow> numeric_tg_id
      | Some n \<Rightarrow> if n \<noteq> [] then rstrip n else numeric_tg_id)"

fun new_rows :: "name_lookup \<Rightarrow> csv \<Rightarrow> string list \<Rightarrow> json list \<Rightarrow> csv \<Rightarrow> csv" where
  "new_rows tg_name rows existing [] acc = acc"
| "new_rows tg_name rows existing (tg_id # rest) acc =
     (let numeric_tg_id = filter isdigit (py_str tg_id)
      in if numeric_tg_id \<noteq> [] \<and> numeric_tg_id \<notin> set existing
         then new_rows tg_name rows existing rest
                (acc @ [[str_nat (length rows + length acc), numeric_tg_id,
                         fetch_name tg_name numeric_tg_id, ''Group Call'', ''None'']])
         else new_rows tg_name rows existing rest acc)"

text \<open>
  The update of talkgroups.csv, lines 304 to 363. Every exception inside is caught and
  leaves the file as it was read: a file that cannot be opened, an empty file (the header
  row is indexed), and a set of ids that cannot be sorted.
\<close>

definition update_talkgroups ::
  "tg_lookup \<Rightarrow> name_lookup \<Rightarrow> repeater list \<Rightarrow> csv option \<Rightarrow> csv option" where
  "update_talkgroups tgs tg_name filtered_list file =
     (case file of
        None \<Rightarrow> None
      | Some rows \<Rightarrow>
          if rows = [] then Some rows
          else (case sorted_json (unique_talkgroups tgs filtered_list) of
                  Inl e \<Rightarrow> Some rows
                | Inr ids \<Rightarrow>
                    (let header_rows = take 2 rows;
                         new = new_rows tg_name rows (existing_tg_ids rows) ids []
                     in if length header_rows = 1
                        then Some (header_rows @ drop 1 rows @ new)
                        else Some (header_rows @ drop 2 rows @ new))))"

definition format_talkgroup_channel :: "repeater \<Rightarrow> json \<Rightarrow> json \<Rightarrow> out_row" where
  "format_talkgroup_channel it tg_id timeslot =
     \<lparr>o_name = callsign it, o_rx = tx it, o_tx = rx it, o_cc = colorcode it, o_city = city it,
      o_last_seen = last_seen it, o_url = repeater_url (id it) @ '' TG'' @ py_str tg_id\<rparr>"

definition process_channels_tg :: "tg_lookup \<Rightarrow> repeater list \<Rightarrow> out_row list" where
  "process_channels_tg tgs filtered_list =
     concat (map (\<lambda>it. map (\<lambda>(tg_id, slot). format_talkgroup_channel it tg_id slot) (tgs (id it)))
               filtered_list)"

text \<open>
  The zone alias computed at lines 376 to 393 of process\_channels. The value is assigned
  to a local variable and not read again.
\<close>

definition replace_char :: "char \<Rightarrow> string \<Rightarrow> string \<Rightarrow> string" where
  "replace_char c r s = concat (map (\<lambda>x. if x = c then r else [x]) s)"

definition zone_alias :: "string \<Rightarrow> string \<Rightarrow> string" where
  "zone_alias cs city_field =
     (let city = strip (hd (split_char CHR '','' city_field));
          alias = (if int (length cs) + 1 \<ge> 16 then py_take 16 cs
                   else (let city_max_len = 15 - int (length cs);
                             city_abbr = py_take city_max_len (replace_char CHR '' '' [] city)
                         in cs @ ''_'' @ city_abbr))
      in py_take 16 alias)"

section \<open>The channels table (write\_channels\_csv)\<close>

text \<open>
  A row of channels.csv: the columns No., Channel Name, Receive Frequency, Transmit
  Frequency, Contact, Contact TG/DMR ID, RX Color Code and Slot. The other columns are
  constants, and TxCC repeats the color code.
\<close>

record ch_row =
  r_no :: nat
  r_name :: string
  r_rx :: string
  r_tx :: string
  r_contact :: string
  r_contact_id :: string
  r_cc :: string
  r_slot :: string

definition url_tg_id :: "string \<Rightarrow> string option" where
  "url_tg_id url =
     (case split2 CHR ''T'' CHR ''G'' [] url of
        _ # p # _ \<Rightarrow> Some (strip p)
      | _ \<Rightarrow> None)"

definition csv_contact :: "csv option \<Rightarrow> string \<Rightarrow> string" where
  "csv_contact file tg_id =
     (case file of
        None \<Rightarrow> ''Simplex''
      | Some tbl \<Rightarrow>
          (case find (\<lambda>row. length row > 2 \<and> row ! 1 = tg_id \<and> row ! 2 \<noteq> []) (drop 1 tbl) of
             None \<Rightarrow> ''Simplex''
           | Some row \<Rightarrow> rstrip (take 16 (row ! 2))))"

definition api_contact :: "name_lookup \<Rightarrow> string \<Rightarrow> string \<Rightarrow> string" where
  "api_contact tg_name tg_id contact_name =
     (if contact_name = ''Simplex''
      then (case tg_name tg_id of
              None \<Rightarrow> contact_name
            | Some n \<Rightarrow> if n \<noteq> [] then rstrip (take 16 n) else contact_name)
      else contact_name)"

definition freq_match :: "string \<Rightarrow> string \<Rightarrow> repeater \<Rightarrow> bool" where
  "freq_match rx_freq tx_freq it = (tx it = rx_freq \<and> rx it = tx_freq)"

definition prefixed_name ::
  "bool \<Rightarrow> repeater list \<Rightarrow> string \<Rightarrow> string \<Rightarrow> string \<Rightarrow> string \<Rightarrow> string" where
  "prefixed_name city_prefix filtered_list rx_freq tx_freq channel_name nm =
     (if city_prefix
      then (case find (freq_match rx_freq tx_freq) filtered_list of
              None \<Rightarrow> channel_name
            | Some it \<Rightarrow> rstrip (take 16 (city_abbr (city it) @ ''.'' @ nm)))
      else rstrip nm)"

definition tg_slot :: "tg_lookup \<Rightarrow> repeater list \<Rightarrow> string \<Rightarrow> string \<Rightarrow> string \<Rightarrow> string" where
  "tg_slot tgs filtered_list rx_freq tx_freq tg_id =
     (case find (freq_match rx_freq tx_freq) filtered_list of
        None \<Rightarrow> ''1''
      | Some it \<Rightarrow>
          (case find (\<lambda>(tg_id_api, slot_api). py_str tg_id_api = tg_id) (tgs (id it)) of
             None \<Rightarrow> ''1''
           | Some (tg_id_api, slot_api) \<Rightarrow> py_str slot_api))"

definition name_slot :: "string \<Rightarrow> string" where
  "name_slot channel_name =
     (if py_in ''TS1'' channel_name then ''1''
      else if py_in ''TS2'' channel_name then ''2''
      else ''1'')"

text \<open>The body of the loop over \<^verbatim>\<open>enumerate(output_list, 1)\<close>.\<close>

definition channel_row ::
  "args \<Rightarrow> tg_lookup \<Rightarrow> name_lookup \<Rightarrow> repeater list \<Rightarrow> csv option \<Rightarrow> nat \<Rightarrow> out_row \<Rightarrow> ch_row" where
  "channel_row a tgs tg_name filtered_list file i channel =
     (let rx_freq = o_rx channel; tx_freq = o_tx channel;
          in_tg = (a_talkgroups a \<and> py_in ''TG'' (o_url channel));
          parsed = (if in_tg then url_tg_id (o_url channel) else None);
          tg_id = (case parsed of None \<Rightarrow> ''99'' | Some t \<Rightarrow> t);
          found = (case parsed of
                     None \<Rightarrow> ''Simplex''
                   | Some t \<Rightarrow> api_contact tg_name t (csv_contact file t));
          channel_name =
            (case parsed of
               None \<Rightarrow> o_name channel
             | Some t \<Rightarrow>
                 prefixed_name (a_city_prefix a) filtered_list rx_freq tx_freq (o_name channel)
                   (if found \<noteq> ''Simplex'' then found else t));
          contact_name = (case parsed of
                            None \<Rightarrow> ''Simplex''
                          | Some t \<Rightarrow> if found \<noteq> ''Simplex'' then found else t);
          slot = (if in_tg then tg_slot tgs filtered_list rx_freq tx_freq tg_id
                  else name_slot channel_name)
      in \<lparr>r_no = i, r_name = channel_name, r_rx = rx_freq, r_tx = tx_freq,
          r_contact = contact_name, r_contact_id = tg_id, r_cc = o_cc channel, r_slot = slot\<rparr>)"

definition enumerate1 :: "'a list \<Rightarrow> (nat \<times> 'a) list" where
  "enumerate1 xs = zip [1 ..< Suc (length xs)] xs"

definition write_channels_csv ::
  "args \<Rightarrow> tg_lookup \<Rightarrow> name_lookup \<Rightarrow> repeater list \<Rightarrow> csv option \<Rightarrow> out_row list \<Rightarrow> ch_row list" where
  "write_channels_csv a tgs tg_name filtered_list file output_list =
     map (\<lambda>(i, channel). channel_row a tgs tg_name filtered_list file i channel)
       (enumerate1 output_list)"

section \<open>The zones table (write\_zones\_csv)\<close>

record zone_row =
  z_no :: nat
  z_name :: string
  z_members :: string
  z_rx_freqs :: string
  z_tx_freqs :: string
  z_a_channel :: string

fun py_join :: "string \<Rightarrow> string list \<Rightarrow> string" where
  "py_join sep [] = []"
| "py_join sep [x] = x"
| "py_join sep (x # y # ys) = x @ sep @ py_join sep (y # ys)"

definition first_or_empty :: "string list \<Rightarrow> string" where
  "first_or_empty xs = (case xs of [] \<Rightarrow> [] | x # _ \<Rightarrow> x)"

definition zone_line :: "nat \<Rightarrow> string \<Rightarrow> string list \<Rightarrow> string list \<Rightarrow> string list \<Rightarrow> zone_row" where
  "zone_line n zone_name channel_names rx_freqs tx_freqs =
     \<lparr>z_no = n, z_name = zone_name, z_members = py_join ''|'' channel_names,
      z_rx_freqs = py_join ''|'' rx_freqs, z_tx_freqs = py_join ''|'' tx_freqs,
      z_a_channel = first_or_empty channel_names\<rparr>"

text \<open>Standard mode, lines 608 to 648: the member channels of one chunk.\<close>

definition chunk_channel_names :: "repeater list \<Rightarrow> string list" where
  "chunk_channel_names chunk =
     concat (map (\<lambda>it. map (ch_alias (callsign it) (city_abbr (city it))) [1, 2]) chunk)"

definition chunk_zone_name :: "args \<Rightarrow> nat \<Rightarrow> nat \<Rightarrow> string" where
  "chunk_zone_name a n_chunks chunk_num =
     (if n_chunks = 1 then a_name a else a_name a @ '' #'' @ str_nat chunk_num)"

definition zone_row_standard :: "args \<Rightarrow> nat \<Rightarrow> nat \<Rightarrow> repeater list \<Rightarrow> zone_row" where
  "zone_row_standard a n_chunks chunk_num chunk =
     zone_line chunk_num (chunk_zone_name a n_chunks chunk_num) (chunk_channel_names chunk)
       (concat (map (\<lambda>it. [tx it, tx it]) chunk)) (concat (map (\<lambda>it. [rx it, rx it]) chunk))"

definition write_zones_csv_standard :: "args \<Rightarrow> repeater list \<Rightarrow> error + zone_row list" where
  "write_zones_csv_standard a filtered_list =
     (case channel_chunks (a_zone_capacity a) filtered_list of
        Inl e \<Rightarrow> Inl e
      | Inr chunks \<Rightarrow>
          Inr (map (\<lambda>(chunk_num, chunk). zone_row_standard a (length chunks) chunk_num chunk)
                 (enumerate1 chunks)))"

text \<open>
  Talkgroup mode, lines 569 to 607: one zone for every repeater with talkgroups; the member
  channels are the rows of channels.csv with the repeater's frequency pair.
\<close>

definition zone_row_tg :: "ch_row list \<Rightarrow> nat \<Rightarrow> repeater \<Rightarrow> zone_row" where
  "zone_row_tg channels zone_num it =
     (let city = strip (hd (split_char CHR '','' (city it)));
          zone_name = callsign it @ ''_'' @ replace_char CHR '' '' ''_'' city;
          members = filter (\<lambda>row. r_rx row = tx it \<and> r_tx row = rx it) channels
      in zone_line zone_num (py_take 16 zone_name) (map r_name members)
           (map (\<lambda>_. tx it) members) (map (\<lambda>_. rx it) members))"

fun zones_tg :: "tg_lookup \<Rightarrow> ch_row list \<Rightarrow> nat \<Rightarrow> repeater list \<Rightarrow> zone_row list" where
  "zones_tg tgs channels zone_num [] = []"
| "zones_tg tgs channels zone_num (it # rest) =
     (if tgs (id it) = [] then zones_tg tgs channels zone_num rest
      else zone_row_tg channels zone_num it # zones_tg tgs channels (zone_num + 1) rest)"

definition write_zones_csv_tg :: "tg_lookup \<Rightarrow> ch_row list \<Rightarrow> repeater list \<Rightarrow> zone_row list" where
  "write_zones_csv_tg tgs channels filtered_list = zones_tg tgs channels 1 filtered_list"

section \<open>Example inputs\<close>

definition mk_item ::
  "json \<Rightarrow> string \<Rightarrow> string \<Rightarrow> string \<Rightarrow> string \<Rightarrow> json option \<Rightarrow> item" where
  "mk_item i cs r t c p =
     \<lparr>id = i, callsign = cs, rx = r, tx = t, colorcode = ''1'', city = c, pep = p,
      last_seen = ''2024-01-01 00:00:00''\<rparr>"

definition mk_repeater :: "json \<Rightarrow> string \<Rightarrow> string \<Rightarrow> string \<Rightarrow> string \<Rightarrow> repeater" where
  "mk_repeater i cs r t c = retain (mk_item i cs r t c (Some (JStr ''50''))) cs 1"

definition mk_args :: "int \<Rightarrow> bool \<Rightarrow> args" where
  "mk_args capacity tg =
     \<lparr>a_band = Both, a_type = Mcc, a_mcc = MccStr ''3'', a_pep = None, a_six = False,
      a_callsign = None, a_zone_capacity = capacity, a_name = ''Home'', a_talkgroups = tg,
      a_city_prefix = False\<rparr>"

definition three_repeaters :: "repeater list" where
  "three_repeaters =
     [mk_repeater (JInt 310001) ''K1AAA'' ''146.000'' ''146.600'' ''Boston, MA'',
      mk_repeater (JInt 310002) ''K1BBB'' ''147.000'' ''147.600'' ''Salem, MA'',
      mk_repeater (JInt 310003) ''K1CCC'' ''148.000'' ''148.600'' ''Lowell, MA'']"

definition k1ccc_rows :: "out_row list" where
  "k1ccc_rows =
     [\<lparr>o_name = ''K1CCC.LOW TS1'', o_rx = ''148.600'', o_tx = ''148.000'', o_cc = ''1'',
       o_city = ''Lowell, MA'', o_last_seen = ''2024-01-01 00:00:00'',
       o_url = ''https://brandmeister.network/?page=repeater&id=310003''\<rparr>,
      \<lparr>o_name = ''K1CCC.LOW TS2'', o_rx = ''148.600'', o_tx = ''148.000'', o_cc = ''1'',
       o_city = ''Lowell, MA'', o_last_seen = ''2024-01-01 00:00:00'',
       o_url = ''https://brandmeister.network/?page=repeater&id=310003''\<rparr>]"

definition dup_items :: "item list" where
  "dup_items =
     [mk_item (JInt 310003) ''K1AAA'' ''147.000'' ''147.600'' ''Salem, MA'' (Some (JStr ''50'')),
      mk_item (JInt 310002) ''K1AAA  Boston'' ''146.000'' ''146.600'' ''Boston, MA'' (Some (JStr ''25'')),
      mk_item (JInt 310001) ''K1AAA'' ''146.000'' ''146.600'' ''Boston, MA'' (Some (JStr ''50''))]"

definition dup_selected :: "repeater list" where
  "dup_selected =
     [retain (mk_item (JInt 310001) ''K1AAA'' ''146.000'' ''146.600'' ''Boston, MA'' (Some (JStr ''50'')))
        ''K1AAA'' 1,
      retain (mk_item (JInt 310003) ''K1AAA'' ''147.000'' ''147.600'' ''Salem, MA'' (Some (JStr ''50'')))
        ''K1AAA'' 2]"

definition ny_repeater :: repeater where
  "ny_repeater = mk_repeater (JInt 310004) ''K1AAA'' ''146.000'' ''146.600'' ''New York, NY''"

definition tgs_nine :: tg_lookup where
  "tgs_nine = (\<lambda>_. [(JInt 9, JInt 1)])"

definition tg_header :: csv where
  "tg_header = [[''No.'', ''Radio ID'', ''Name'', ''Call Type'', ''Call Alert'']]"



definition tg_dup_table :: csv where
  "tg_dup_table =
     tg_header @ [[''1'', ''9'', ''Local'', ''Group Call'', ''None''],
                  [''2'', ''9'', ''Local again'', ''Group Call'', ''None'']]"

definition tgs_mixed :: tg_lookup where
  "tgs_mixed = (\<lambda>_. [(JInt 9, JInt 1), (JStr ''10'', JInt 2)])"

definition tgs_texts :: tg_lookup where
  "tgs_texts = (\<lambda>_. [(JStr ''9'', JInt 1), (JStr ''10'', JInt 2)])"

definition tgs_signed :: tg_lookup where
  "tgs_signed = (\<lambda>_. [(JInt (- 9), JInt 1), (JInt 9, JInt 2)])"

section \<open>Evaluation rules\<close>

lemmas prim_eval = isspace_def isdecimal_def isdigit_def int_space_def int_strip_def str_isdigit_def upper_def upper_char_def rstrip_def
  strip_def split_ws_def startswith_def py_take_def digit_val_def int_of_str_def str_nat.simps
  str_int_def digit_char_def char_of_def bit_Suc_0_iff

lemmas example_eval = mk_item_def mk_repeater_def mk_args_def three_repeaters_def k1ccc_rows_def
  retain_def

lemmas std_eval = city_abbr_def ch_alias_def repeater_url_def format_channel_slot_def
  format_channel_def py_range0_def range_from.simps channel_chunks_def process_chunk_def
  process_channels_standard_def name_slot_def channel_row_def enumerate1_def
  write_channels_csv_def zone_line_def first_or_empty_def chunk_channel_names_def
  chunk_zone_name_def zone_row_standard_def write_zones_csv_standard_def

section \<open>Properties of the channel names\<close>














lemma set_enumerate1: "(i, x) \<in> set (enumerate1 xs) \<Longrightarrow> x \<in> set xs"
  by (auto simp: enumerate1_def dest: set_zip_rightD)



section \<open>Properties of standard mode\<close>

lemma range_from_length:
  "0 < c \<Longrightarrow> length (range_from i n c) = (n - i + c - 1) div c"
proof (induction i n c rule: range_from.induct)
  case (1 i n c)
  show ?case
  proof (cases "n \<le> i")
    case True
    with 1(2) show ?thesis by (simp add: range_from.simps)
  next
    case False
    then have step: "range_from i n c = i # range_from (i + c) n c"
      using 1(2) by (simp add: range_from.simps)
    have ih: "length (range_from (i + c) n c) = (n - (i + c) + c - 1) div c"
      using 1(1) 1(2) False by simp
    show ?thesis
    proof (cases "i + c \<le> n")
      case True
      define m where "m = n - (i + c) + c - 1"
      have "n - i + c - 1 = m + c" using True 1(2) by (simp add: m_def)
      moreover have "(m + c) div c = Suc (m div c)" using 1(2) by (simp add: div_add_self2)
      ultimately have "(n - i + c - 1) div c = Suc (m div c)" by simp
      with step ih show ?thesis by (simp add: m_def)
    next
      case f2: False
      then have a: "n - (i + c) = 0" by simp
      have "c \<le> n - i + c - 1" "n - i + c - 1 < 2 * c" using False f2 by simp_all
      then have "(n - i + c - 1) div c = 1"
        using 1(2) by (simp add: div_nat_eqI)
      with step ih a 1(2) show ?thesis by simp
    qed
  qed
qed


lemma range_from_nth:
  "0 < c \<Longrightarrow> k < length (range_from i n c) \<Longrightarrow> range_from i n c ! k = i + k * c"
proof (induction i n c arbitrary: k rule: range_from.induct)
  case (1 i n c)
  show ?case
  proof (cases "n \<le> i")
    case True
    with 1(3) show ?thesis by (simp add: range_from.simps)
  next
    case False
    then have step: "range_from i n c = i # range_from (i + c) n c"
      using 1(2) by (simp add: range_from.simps)
    show ?thesis
    proof (cases k)
      case 0
      then show ?thesis using step by simp
    next
      case (Suc j)
      then have "j < length (range_from (i + c) n c)" using 1(3) step by simp
      then have "range_from (i + c) n c ! j = i + c + j * c"
        using 1(1) 1(2) False by simp
      then show ?thesis using step Suc by simp
    qed
  qed
qed


lemma enumerate1_length: "length (enumerate1 xs) = length xs"
  by (simp add: enumerate1_def del: upt_Suc)

lemma enumerate1_nth: "k < length xs \<Longrightarrow> enumerate1 xs ! k = (Suc k, xs ! k)"
  by (simp add: enumerate1_def del: upt_Suc)

lemma length_chunk_channel_names: "length (chunk_channel_names chunk) = 2 * length chunk"
  by (induction chunk) (simp_all add: chunk_channel_names_def)

lemma channel_chunks_pos:
  assumes "0 < c"
  shows "channel_chunks c fl = Inr (map (\<lambda>i. take (nat c) (drop i fl)) (range_from 0 (length fl) (nat c)))"
  using assms by (simp add: channel_chunks_def py_range0_def)

lemma ceil_div_less:
  assumes "0 < (c::nat)" "Suc k < (n + c - 1) div c"
  shows "Suc k * c < n"
proof (rule ccontr)
  assume "\<not> Suc k * c < n"
  then have "n + c - 1 < Suc (Suc k) * c" using assms(1) by simp
  then have "(n + c - 1) div c < Suc (Suc k)" using assms(1)
    by (simp add: less_mult_imp_div_less)
  with assms(2) show False by simp
qed

text \<open>
  C6. In standard mode with a positive capacity \<open>c\<close> and \<open>n\<close> selected repeaters the zones
  table has \<open>(n + c - 1) div c\<close> rows, the ceiling of \<open>n / c\<close>. Row \<open>k\<close> (from 0) has the
  number \<open>k + 1\<close> and lists the channels of the repeaters \<open>k * c\<close> to \<open>k * c + c - 1\<close>; every
  row but the last lists exactly \<open>c\<close> repeaters and \<open>2 * c\<close> member channels. The zone name
  is the base name when there is one row, and the base name followed by \<open>#\<close> and the row
  number otherwise.
\<close>

theorem standard_zones_partition:
  assumes "0 < a_zone_capacity a"
  shows "\<exists>zs. write_zones_csv_standard a fl = Inr zs \<and>
      length zs = (length fl + nat (a_zone_capacity a) - 1) div nat (a_zone_capacity a) \<and>
      (\<forall>k < length zs.
         z_no (zs ! k) = k + 1 \<and>
         z_name (zs ! k) =
           (if length zs = 1 then a_name a else a_name a @ '' #'' @ str_nat (k + 1)) \<and>
         z_members (zs ! k) =
           py_join ''|''
             (chunk_channel_names
                (take (nat (a_zone_capacity a)) (drop (k * nat (a_zone_capacity a)) fl))) \<and>
         (k + 1 < length zs \<longrightarrow>
            length (take (nat (a_zone_capacity a)) (drop (k * nat (a_zone_capacity a)) fl))
              = nat (a_zone_capacity a) \<and>
            length (chunk_channel_names
                (take (nat (a_zone_capacity a)) (drop (k * nat (a_zone_capacity a)) fl)))
              = 2 * nat (a_zone_capacity a)))"
proof -
  define c where "c = nat (a_zone_capacity a)"
  define n where "n = length fl"
  define chunks where "chunks = map (\<lambda>i. take c (drop i fl)) (range_from 0 n c)"
  define zs where "zs = map (\<lambda>(chunk_num, chunk). zone_row_standard a (length chunks) chunk_num chunk)
                 (enumerate1 chunks)"
  have cpos: "0 < c" using assms by (simp add: c_def)
  have res: "write_zones_csv_standard a fl = Inr zs"
    using channel_chunks_pos[OF assms, of fl]
    by (simp add: write_zones_csv_standard_def zs_def chunks_def c_def n_def)
  have len_chunks: "length chunks = (n + c - 1) div c"
    using range_from_length[OF cpos, of 0 n] by (simp add: chunks_def)
  have len: "length zs = (n + c - 1) div c"
    using len_chunks by (simp add: zs_def enumerate1_length)
  have row: "zs ! k = zone_row_standard a (length zs) (Suc k) (take c (drop (k * c) fl))"
    if "k < length zs" for k
  proof -
    have k: "k < length chunks" using that by (simp add: zs_def enumerate1_length)
    then have "chunks ! k = take c (drop (k * c) fl)"
      using range_from_nth[OF cpos, of k 0 n] by (simp add: chunks_def)
    moreover have "length zs = length chunks" by (simp add: zs_def enumerate1_length)
    ultimately show ?thesis
      using k by (simp add: zs_def enumerate1_length enumerate1_nth)
  qed
  have full: "length (take c (drop (k * c) fl)) = c" if "k + 1 < length zs" for k
  proof -
    have "Suc k * c < n" using ceil_div_less[OF cpos, of k n] that len by simp
    then show ?thesis by (simp add: n_def)
  qed
  have "\<forall>k < length zs.
         z_no (zs ! k) = k + 1 \<and>
         z_name (zs ! k) =
           (if length zs = 1 then a_name a else a_name a @ '' #'' @ str_nat (k + 1)) \<and>
         z_members (zs ! k) = py_join ''|'' (chunk_channel_names (take c (drop (k * c) fl))) \<and>
         (k + 1 < length zs \<longrightarrow>
            length (take c (drop (k * c) fl)) = c \<and>
            length (chunk_channel_names (take c (drop (k * c) fl))) = 2 * c)"
  proof (intro allI impI)
    fix k assume k: "k < length zs"
    show "z_no (zs ! k) = k + 1 \<and>
         z_name (zs ! k) =
           (if length zs = 1 then a_name a else a_name a @ '' #'' @ str_nat (k + 1)) \<and>
         z_members (zs ! k) = py_join ''|'' (chunk_channel_names (take c (drop (k * c) fl))) \<and>
         (k + 1 < length zs \<longrightarrow>
            length (take c (drop (k * c) fl)) = c \<and>
            length (chunk_channel_names (take c (drop (k * c) fl))) = 2 * c)"
      using row[OF k] full[of k]
      by (simp add: zone_row_standard_def zone_line_def chunk_zone_name_def
            length_chunk_channel_names)
  qed
  with res len show ?thesis unfolding c_def n_def by blast
qed

theorem standard_zones_partition_witness:
  "0 < a_zone_capacity (mk_args 2 False) \<and>
   (\<exists>zs. write_zones_csv_standard (mk_args 2 False) three_repeaters = Inr zs \<and>
      length zs = 2 \<and> 0 + 1 < length zs \<and>
      z_name (zs ! 0) = ''Home #1'' \<and> z_name (zs ! 1) = ''Home #2'' \<and>
      length (chunk_channel_names (take 2 (drop 0 three_repeaters))) = 4)"
proof -
  have h: "0 < a_zone_capacity (mk_args 2 False)" by (simp add: mk_args_def)
  have c: "nat (a_zone_capacity (mk_args 2 False)) = 2" by (simp add: mk_args_def)
  have n: "length three_repeaters = 3" by (simp add: three_repeaters_def)
  have s: "str_nat (0 + 1) = ''1''" "str_nat (1 + 1) = ''2''" by (simp_all add: prim_eval)
  have nm: "a_name (mk_args 2 False) = ''Home''" by (simp add: mk_args_def)
  from standard_zones_partition[OF h, of three_repeaters] obtain zs where
    r: "write_zones_csv_standard (mk_args 2 False) three_repeaters = Inr zs" and
    l: "length zs = (length three_repeaters + 2 - 1) div 2" and
    k: "\<forall>k < length zs.
         z_no (zs ! k) = k + 1 \<and>
         z_name (zs ! k) =
           (if length zs = 1 then a_name (mk_args 2 False)
            else a_name (mk_args 2 False) @ '' #'' @ str_nat (k + 1)) \<and>
         z_members (zs ! k) =
           py_join ''|'' (chunk_channel_names (take 2 (drop (k * 2) three_repeaters))) \<and>
         (k + 1 < length zs \<longrightarrow>
            length (take 2 (drop (k * 2) three_repeaters)) = 2 \<and>
            length (chunk_channel_names (take 2 (drop (k * 2) three_repeaters))) = 2 * 2)"
    unfolding c by blast
  from l n have l2: "length zs = 2" by simp
  have z: "0 < length zs" "1 < length zs" "0 + 1 < length zs" using l2 by simp_all
  note k0 = k[rule_format, OF z(1)] and k1 = k[rule_format, OF z(2)]
  from k0 l2 have "z_name (zs ! 0) = ''Home'' @ '' #'' @ str_nat (0 + 1)"
    by (simp add: nm)
  then have a: "z_name (zs ! 0) = ''Home #1''" unfolding s by simp
  from k1 l2 have "z_name (zs ! 1) = ''Home'' @ '' #'' @ str_nat (1 + 1)"
    by (simp add: nm)
  then have b: "z_name (zs ! 1) = ''Home #2''" unfolding s by simp
  from k0 z(3) have "length (chunk_channel_names (take 2 (drop (0 * 2) three_repeaters))) = 2 * 2"
    by blast
  then have m: "length (chunk_channel_names (take 2 (drop 0 three_repeaters))) = 4" by simp
  from a b m z(3)
  show ?thesis using h r l2 by blast
qed

text \<open>
  C1. With three selected repeaters and a capacity of 2, process\_channels empties
  \<^verbatim>\<open>output_list\<close> at the second chunk, and the channels table holds the two rows of the
  third repeater only, numbered 1 and 2, while the zones table of the same run lists six
  member channels in two zones.
\<close>

theorem channels_table_last_chunk_only:
  "process_channels_standard (mk_args 2 False) three_repeaters = Inr k1ccc_rows \<and>
   map (\<lambda>r. (r_no r, r_name r))
     (write_channels_csv (mk_args 2 False) (\<lambda>_. []) (\<lambda>_. None) three_repeaters None k1ccc_rows)
     = [(1, ''K1CCC.LOW TS1''), (2, ''K1CCC.LOW TS2'')] \<and>
   map_sum (\<lambda>e. e) (map z_members) (write_zones_csv_standard (mk_args 2 False) three_repeaters)
     = Inr [''K1AAA.BOS TS1|K1AAA.BOS TS2|K1BBB.SAL TS1|K1BBB.SAL TS2'',
            ''K1CCC.LOW TS1|K1CCC.LOW TS2'']"
  by (simp add: prim_eval std_eval example_eval)

lemmas sel_eval = band_ok_def mcc_ok_def pep_skip_def callsign_ok_def passes_def normalize_def
  retain_def same_triple_def sorted_list_def filter_list_def less_eq_prod_def less_prod_def
  less_eq_char_def less_char_def list_le_def

section \<open>Properties of the selection\<close>

subsection \<open>Normalization can raise\<close>

lemma split_acc_all_space: "list_all isspace s \<Longrightarrow> split_acc [] s = []"
  by (induction s) simp_all

lemma normalize_blank:
  "callsign it \<noteq> [] \<Longrightarrow> list_all isspace (callsign it) \<Longrightarrow> normalize it = Inl IndexError"
  by (simp add: normalize_def split_ws_def split_acc_all_space)

lemma normalize_numeric_id:
  "callsign it = [] \<Longrightarrow> id it = JInt n \<Longrightarrow> normalize it = Inl AttributeError"
  by (simp add: normalize_def)

lemma sorted_list_single:
  "py_int (id it) = Inr i \<Longrightarrow> sorted_list [it] = Inr [it]"
  by (simp add: sorted_list_def)

lemma filter_list_single_raise:
  assumes "py_int (id it) = Inr i" "passes far a it = Inr True" "normalize it = Inl e"
  shows "filter_list far a [it] = Inl e"
  using assms by (simp add: filter_list_def sorted_list_single)

text \<open>
  C10. The normalization step of the selection is not total. A record that passes every
  filter and whose callsign is not empty and is white space only makes the selection raise
  IndexError: splitting it gives no token. A record that passes every filter, with an empty
  callsign and an integer id, makes it raise AttributeError: the callsign has become the
  integer, which has no \<^verbatim>\<open>split\<close>.
\<close>

theorem normalization_not_total:
  "(py_int (id it) = Inr i \<and> passes far a it = Inr True \<and>
      callsign it \<noteq> [] \<and> list_all isspace (callsign it)
      \<longrightarrow> filter_list far a [it] = Inl IndexError) \<and>
   (passes far a it = Inr True \<and> callsign it = [] \<and> id it = JInt n
      \<longrightarrow> filter_list far a [it] = Inl AttributeError)"
  using filter_list_single_raise[of it i far a] filter_list_single_raise[of it n far a]
    normalize_blank[of it] normalize_numeric_id[of it n]
  by auto

theorem normalization_not_total_witness:
  "py_int (id (mk_item (JInt 310001) ''  '' ''146.000'' ''146.600'' ''Boston, MA'' (Some JNull)))
     = Inr 310001 \<and>
   passes (\<lambda>_. False) (mk_args 2 False)
     (mk_item (JInt 310001) ''  '' ''146.000'' ''146.600'' ''Boston, MA'' (Some JNull)) = Inr True \<and>
   filter_list (\<lambda>_. False) (mk_args 2 False)
     [mk_item (JInt 310001) ''  '' ''146.000'' ''146.600'' ''Boston, MA'' (Some JNull)]
     = Inl IndexError \<and>
   passes (\<lambda>_. False) (mk_args 2 False)
     (mk_item (JInt 310001) [] ''146.000'' ''146.600'' ''Boston, MA'' (Some JNull)) = Inr True \<and>
   filter_list (\<lambda>_. False) (mk_args 2 False)
     [mk_item (JInt 310001) [] ''146.000'' ''146.600'' ''Boston, MA'' (Some JNull)]
     = Inl AttributeError"
proof -
  let ?blank = "mk_item (JInt 310001) ''  '' ''146.000'' ''146.600'' ''Boston, MA'' (Some JNull)"
  let ?empty = "mk_item (JInt 310001) [] ''146.000'' ''146.600'' ''Boston, MA'' (Some JNull)"
  have i: "py_int (id ?blank) = Inr 310001" by (simp add: mk_item_def)
  have p1: "passes (\<lambda>_. False) (mk_args 2 False) ?blank = Inr True"
    by (simp add: sel_eval prim_eval example_eval)
  have p2: "passes (\<lambda>_. False) (mk_args 2 False) ?empty = Inr True"
    by (simp add: sel_eval prim_eval example_eval)
  have b: "callsign ?blank \<noteq> [] \<and> list_all isspace (callsign ?blank)"
    by (simp add: mk_item_def isspace_def)
  have e: "callsign ?empty = [] \<and> id ?empty = JInt 310001" by (simp add: mk_item_def)
  from normalization_not_total[of ?blank 310001 "\<lambda>_. False" "mk_args 2 False"] i p1 b
  have r1: "filter_list (\<lambda>_. False) (mk_args 2 False) [?blank] = Inl IndexError" by blast
  from normalization_not_total[of ?empty 0 "\<lambda>_. False" "mk_args 2 False" 310001] p2 e
  have r2: "filter_list (\<lambda>_. False) (mk_args 2 False) [?empty] = Inl AttributeError" by blast
  from i p1 r1 p2 r2 show ?thesis by blast
qed

subsection \<open>The turn counter\<close>

lemma turns_ok_step:
  assumes "turns_ok fl ex"
  shows "turns_ok (fl @ [retain it cs (cnt ex cs + 1)]) (ex(cs \<mapsto> cnt ex cs + 1))"
  unfolding turns_ok_def
proof
  fix c
  from assms have h: "map turn (filter (\<lambda>r. callsign r = c) fl) = [1 ..< Suc (cnt ex c)]"
    by (simp add: turns_ok_def)
  show "map turn (filter (\<lambda>r. callsign r = c) (fl @ [retain it cs (cnt ex cs + 1)])) =
        [1 ..< Suc (cnt (ex(cs \<mapsto> cnt ex cs + 1)) c)]"
    using h by (simp add: retain_def cnt_def)
qed

lemma filter_loop_turns:
  "filter_loop far a sl fl ex = Inr (fl', ex') \<Longrightarrow> turns_ok fl ex \<Longrightarrow> turns_ok fl' ex'"
proof (induction sl arbitrary: fl ex)
  case Nil
  then show ?case by simp
next
  case (Cons it rest)
  show ?case
  proof (cases "passes far a it")
    case (Inl e)
    with Cons.prems show ?thesis by simp
  next
    case (Inr b)
    show ?thesis
    proof (cases b)
      case False
      with Inr Cons show ?thesis by simp
    next
      case True
      show ?thesis
      proof (cases "normalize it")
        case (Inl e)
        with Inr True Cons.prems show ?thesis by simp
      next
        case nr: (Inr cs)
        show ?thesis
        proof (cases "list_ex (same_triple it cs) fl")
          case True
          with Inr \<open>b\<close> nr Cons show ?thesis by simp
        next
          case False
          with Inr \<open>b\<close> nr Cons.prems(1)
          have "filter_loop far a rest (fl @ [retain it cs (cnt ex cs + 1)])
                  (ex(cs \<mapsto> cnt ex cs + 1)) = Inr (fl', ex')"
            by (simp add: cnt_def Let_def)
          then show ?thesis using Cons.IH turns_ok_step[OF Cons.prems(2)] by blast
        qed
      qed
    qed
  qed
qed

lemma filter_list_loop:
  "filter_list far a raw = Inr fl \<Longrightarrow>
     \<exists>sl ex. sorted_list raw = Inr sl \<and> filter_loop far a sl [] Map.empty = Inr (fl, ex)"
  by (auto simp: filter_list_def split: sum.splits)

text \<open>
  C9. When the selection returns, the turns of the retained records with one normalized
  callsign are 1, 2, 3 and so on in the order of retention, for every callsign.
\<close>

theorem turn_sequence:
  assumes "filter_list far a raw = Inr fl"
  shows "map turn (filter (\<lambda>r. callsign r = c) fl)
           = [1 ..< Suc (length (filter (\<lambda>r. callsign r = c) fl))]"
proof -
  from filter_list_loop[OF assms] obtain sl ex where
    "filter_loop far a sl [] Map.empty = Inr (fl, ex)" by blast
  then have "turns_ok fl ex"
    by (rule filter_loop_turns) (simp add: turns_ok_def cnt_def)
  then have t: "map turn (filter (\<lambda>r. callsign r = c) fl) = [1 ..< Suc (cnt ex c)]"
    by (simp add: turns_ok_def)
  then have "length (filter (\<lambda>r. callsign r = c) fl) = cnt ex c"
    by (metis length_map length_upt diff_Suc_1)
  with t show ?thesis by simp
qed

theorem turn_sequence_witness:
  "filter_list (\<lambda>_. False) (mk_args 2 False) dup_items = Inr dup_selected \<and>
   map turn (filter (\<lambda>r. callsign r = ''K1AAA'') dup_selected) = [1, 2]"
proof -
  have h: "filter_list (\<lambda>_. False) (mk_args 2 False) dup_items = Inr dup_selected"
    by (simp add: dup_items_def dup_selected_def sel_eval prim_eval example_eval)
  have l: "length (filter (\<lambda>r. callsign r = ''K1AAA'') dup_selected) = 2"
    by (simp add: dup_selected_def retain_def)
  have u: "[1 ..< Suc 2] = [1, 2]" by (simp add: upt_rec)
  from turn_sequence[OF h, of "''K1AAA''"] l u
  have "map turn (filter (\<lambda>r. callsign r = ''K1AAA'') dup_selected) = [1, 2]" by simp
  with h show ?thesis by blast
qed

subsection \<open>Deduplication\<close>

lemma find_append_Some: "find P xs = Some x \<Longrightarrow> find P (xs @ ys) = Some x"
  by (induction xs) (auto split: if_splits)

lemma find_append_None: "find P xs = None \<Longrightarrow> find P (xs @ ys) = find P ys"
  by (induction xs) (auto split: if_splits)

lemma find_None_set: "find P xs = None \<longleftrightarrow> (\<forall>x \<in> set xs. \<not> P x)"
  by (induction xs) auto

lemma triple_retain: "triple (retain it cs n) = (rx it, tx it, cs)"
  by (simp add: triple_def retain_def)

lemma triple_update: "triple (it\<lparr>callsign := cs\<rparr>) = (rx it, tx it, cs)"
  by (simp add: triple_def)

lemma truncate_retain: "item.truncate (retain it cs n) = it\<lparr>callsign := cs\<rparr>"
  by (simp add: item.truncate_def retain_def)

lemma list_ex_triple:
  "list_ex (same_triple it cs) fl \<longleftrightarrow> (rx it, tx it, cs) \<in> triple ` set fl"
  unfolding list_ex_iff same_triple_def triple_def by force

lemma dedup_ok_skip:
  assumes "dedup_ok fl done" "list_ex (same_triple it cs) fl"
  shows "dedup_ok fl (done @ [it\<lparr>callsign := cs\<rparr>])"
  using assms unfolding dedup_ok_def
  by (auto simp: list_ex_triple triple_update find_append_Some)

lemma dedup_ok_keep:
  assumes "dedup_ok fl done" "\<not> list_ex (same_triple it cs) fl"
  shows "dedup_ok (fl @ [retain it cs n]) (done @ [it\<lparr>callsign := cs\<rparr>])"
proof -
  have new: "(rx it, tx it, cs) \<notin> triple ` set fl" using assms(2) by (simp add: list_ex_triple)
  have none: "find (\<lambda>c. triple c = (rx it, tx it, cs)) done = None"
    using assms(1) new unfolding dedup_ok_def find_None_set by metis
  have d: "distinct (map triple (fl @ [retain it cs n]))"
    using assms(1) new by (simp add: dedup_ok_def triple_retain)
  have f: "find (\<lambda>c. triple c = triple r) (done @ [it\<lparr>callsign := cs\<rparr>]) = Some (item.truncate r)"
    if "r \<in> set (fl @ [retain it cs n])" for r
  proof (cases "r \<in> set fl")
    case True
    then show ?thesis using assms(1) by (simp add: dedup_ok_def find_append_Some)
  next
    case False
    with that have r: "r = retain it cs n" by simp
    show ?thesis unfolding r triple_retain truncate_retain
      using none by (simp add: find_append_None triple_update)
  qed
  have c: "\<forall>c \<in> set (done @ [it\<lparr>callsign := cs\<rparr>]). triple c \<in> triple ` set (fl @ [retain it cs n])"
    using assms(1) by (auto simp: dedup_ok_def triple_update triple_retain)
  from d f c show ?thesis unfolding dedup_ok_def by blast
qed

lemma filter_loop_dedup:
  "filter_loop far a sl fl ex = Inr (fl', ex') \<Longrightarrow> dedup_ok fl done \<Longrightarrow>
     dedup_ok fl' (done @ candidates far a sl)"
proof (induction sl arbitrary: fl ex "done")
  case Nil
  then show ?case by simp
next
  case (Cons it rest)
  show ?case
  proof (cases "passes far a it")
    case (Inl e)
    with Cons.prems show ?thesis by simp
  next
    case (Inr b)
    show ?thesis
    proof (cases b)
      case False
      with Inr Cons show ?thesis by simp
    next
      case True
      show ?thesis
      proof (cases "normalize it")
        case (Inl e)
        with Inr True Cons.prems show ?thesis by simp
      next
        case nr: (Inr cs)
        have cand: "candidates far a (it # rest) = it\<lparr>callsign := cs\<rparr> # candidates far a rest"
          using Inr True nr by simp
        show ?thesis
        proof (cases "list_ex (same_triple it cs) fl")
          case dup: True
          with Inr \<open>b\<close> nr Cons.prems(1)
          have "filter_loop far a rest fl ex = Inr (fl', ex')" by simp
          from Cons.IH[OF this dedup_ok_skip[OF Cons.prems(2) dup]]
          show ?thesis unfolding cand by simp
        next
          case new: False
          with Inr \<open>b\<close> nr Cons.prems(1)
          have "filter_loop far a rest (fl @ [retain it cs (cnt ex cs + 1)])
                  (ex(cs \<mapsto> cnt ex cs + 1)) = Inr (fl', ex')"
            by (simp add: cnt_def Let_def)
          from Cons.IH[OF this dedup_ok_keep[OF Cons.prems(2) new]]
          show ?thesis unfolding cand by simp
        qed
      qed
    qed
  qed
qed

subsection \<open>The sort\<close>

lemma sort_keys_ok:
  "sort_keys raw = Inr ks \<Longrightarrow> map snd ks = raw \<and> (\<forall>p \<in> set ks. fst p = sort_key_of (snd p))"
proof (induction raw arbitrary: ks)
  case Nil
  then show ?case by simp
next
  case (Cons k raw)
  from Cons.prems obtain i r where i: "py_int (id k) = Inr i" and r: "sort_keys raw = Inr r"
    and ks: "ks = ((callsign k, i), k) # r"
    by (auto split: sum.splits)
  from Cons.IH[OF r] i ks show ?case by (simp add: sort_key_of_def id_int_def)
qed

lemma sorted_list_ok:
  assumes "sorted_list raw = Inr sl"
  shows "mset sl = mset raw" "sorted (map sort_key_of sl)"
proof -
  from assms obtain ks where ks: "sort_keys raw = Inr ks" and sl: "sl = map snd (sort_key fst ks)"
    by (auto simp: sorted_list_def split: sum.splits)
  from sort_keys_ok[OF ks] have m: "map snd ks = raw"
    and k: "\<forall>p \<in> set ks. fst p = sort_key_of (snd p)" by simp_all
  have "mset sl = image_mset snd (mset (sort_key fst ks))" by (simp add: sl)
  also have "\<dots> = mset (map snd ks)" by simp
  finally show "mset sl = mset raw" by (simp add: m)
  have "map sort_key_of sl = map fst (sort_key fst ks)"
    using k by (simp add: sl)
  then show "sorted (map sort_key_of sl)" by simp
qed

text \<open>
  C5. When the selection returns, no two retained records have the same frequencies and
  normalized callsign. The records are taken in the order of the list sorted by callsign
  and then by id as an integer, and among the records that pass the filters every
  retained record is the first one with its triple in that order; every such record has
  its triple retained.
\<close>

theorem dedup_first_wins:
  assumes "filter_list far a raw = Inr fl"
  shows "distinct (map triple fl) \<and>
    (\<exists>sl. sorted_list raw = Inr sl \<and> mset sl = mset raw \<and> sorted (map sort_key_of sl) \<and>
       (\<forall>r \<in> set fl. find (\<lambda>c. triple c = triple r) (candidates far a sl)
                        = Some (item.truncate r)) \<and>
       (\<forall>c \<in> set (candidates far a sl). triple c \<in> triple ` set fl))"
proof -
  from filter_list_loop[OF assms] obtain sl ex where
    sl: "sorted_list raw = Inr sl" and
    lp: "filter_loop far a sl [] Map.empty = Inr (fl, ex)" by blast
  have "dedup_ok [] []" by (simp add: dedup_ok_def)
  from filter_loop_dedup[OF lp this] have "dedup_ok fl (candidates far a sl)" by simp
  with sl sorted_list_ok[OF sl] show ?thesis unfolding dedup_ok_def by blast
qed

theorem dedup_first_wins_witness:
  "filter_list (\<lambda>_. False) (mk_args 2 False) dup_items = Inr dup_selected \<and>
   distinct (map triple dup_selected) \<and>
   (\<exists>sl. sorted_list dup_items = Inr sl \<and>
      find (\<lambda>c. triple c = triple (dup_selected ! 0)) (candidates (\<lambda>_. False) (mk_args 2 False) sl)
        = Some (item.truncate (dup_selected ! 0)))"
proof -
  have h: "filter_list (\<lambda>_. False) (mk_args 2 False) dup_items = Inr dup_selected"
    by (simp add: dup_items_def dup_selected_def sel_eval prim_eval example_eval)
  have m: "dup_selected ! 0 \<in> set dup_selected" by (simp add: dup_selected_def)
  from dedup_first_wins[OF h] m h show ?thesis by blast
qed

subsection \<open>The power filter\<close>

text \<open>
  C7. With the power flag and no value the record whose \<^verbatim>\<open>pep\<close> is the text \<open>00\<close> is
  kept, although \<^verbatim>\<open>int\<close> reads that text as zero, and although the same record is
  skipped as soon as a threshold of 1 is given.
\<close>

theorem leading_zero_power_kept:
  "py_int (JStr ''00'') = Inr 0 \<and>
   pep_skip (Some ''0'') (Some (JStr ''00'')) = Inr False \<and>
   pep_skip (Some ''1'') (Some (JStr ''00'')) = Inr True"
  by (simp add: pep_skip_def prim_eval)

text \<open>
  The filter on further records: one without the key \<^verbatim>\<open>pep\<close> raises KeyError, and a
  superscript two counts as a digit, so that the record is kept with the flag alone and
  makes \<^verbatim>\<open>int\<close> raise with a threshold. A JSON null is skipped, and without the flag
  nothing is read.
\<close>

lemma power_filter_other_records:
  "pep_skip (Some ''0'') None = Inl KeyError"
  "pep_skip (Some ''0'') (Some (JStr [CHR 0xB2])) = Inr False"
  "pep_skip (Some ''10'') (Some (JStr [CHR 0xB2])) = Inl ValueError"
  "pep_skip (Some ''0'') (Some JNull) = Inr True"
  "pep_skip None p = Inr False"
  by (simp_all add: pep_skip_def prim_eval)

subsection \<open>Decimal digits\<close>

lemma digit_char_props:
  assumes "d < 10"
  shows "isdecimal (digit_char d)" "digit_val (digit_char d) = d"
  using assms by (simp_all add: isdecimal_def digit_val_def digit_char_def)

lemma str_nat_digits: "str_nat n \<noteq> [] \<and> list_all isdecimal (str_nat n)"
proof (induction n rule: str_nat.induct)
  case (1 n)
  show ?case
  proof (cases "n < 10")
    case True
    then show ?thesis by (simp add: str_nat.simps[of n] digit_char_props)
  next
    case False
    with 1 show ?thesis
      by (simp add: str_nat.simps[of n] digit_char_props)
  qed
qed

lemma dec_value_snoc: "dec_value (xs @ [c]) = dec_value xs * 10 + digit_val c"
  by (simp add: dec_value_def)

lemma dec_value_str_nat: "dec_value (str_nat n) = n"
proof (induction n rule: str_nat.induct)
  case (1 n)
  show ?case
  proof (cases "n < 10")
    case True
    then show ?thesis by (simp add: str_nat.simps[of n] dec_value_def digit_char_props)
  next
    case False
    with 1 show ?thesis
      by (simp add: str_nat.simps[of n] dec_value_snoc digit_char_props)
  qed
qed

section \<open>Properties of talkgroup mode\<close>

lemmas tg_eval = unique_talkgroups_def is_int_def is_str_def sorted_json_def existing_tg_ids_def
  fetch_name_def update_talkgroups_def format_talkgroup_channel_def process_channels_tg_def
  replace_char_def zone_alias_def url_tg_id_def csv_contact_def api_contact_def freq_match_def
  prefixed_name_def tg_slot_def zone_row_tg_def write_zones_csv_tg_def

lemmas tg_example_eval = ny_repeater_def tgs_nine_def tg_header_def

text \<open>
  C2. For the repeater K1AAA in New York with one talkgroup, the zone name that
  write\_zones\_csv emits is the callsign, an underscore and the city with its spaces
  turned into underscores, cut to 16 characters: \<open>K1AAA_New_York\<close>. The zone alias that
  process\_channels computes for the same repeater, and does not use, is
  \<open>K1AAA_NewYork\<close>.
\<close>

theorem talkgroup_zone_name_not_alias:
  "map z_name
     (write_zones_csv_tg tgs_nine
        (write_channels_csv (mk_args 160 True) tgs_nine (\<lambda>_. None) [ny_repeater]
          (update_talkgroups tgs_nine (\<lambda>_. None) [ny_repeater] (Some tg_header))
          (process_channels_tg tgs_nine [ny_repeater]))
        [ny_repeater])
     = [''K1AAA_New_York''] \<and>
   zone_alias (callsign ny_repeater) (city ny_repeater) = ''K1AAA_NewYork''"
  by (simp add: tg_eval tg_example_eval prim_eval std_eval example_eval)

subsection \<open>Substrings\<close>

lemma startswith_prefix: "startswith s p \<longleftrightarrow> prefix p s"
  unfolding startswith_def prefix_def
  by (metis append_eq_conv_conj append_take_drop_id)

lemma py_in_sublist: "py_in sub s \<longleftrightarrow> sublist sub s"
  by (induction s) (simp_all add: startswith_prefix sublist_Cons_right)








subsection \<open>The talkgroup id in the URL\<close>

lemma split2_none: "a \<notin> set q \<Longrightarrow> split2 a b cur q = [rev cur @ q]"
  by (induction a b cur q rule: split2.induct) auto

lemma split2_first:
  "a \<notin> set p \<Longrightarrow> split2 a b cur (p @ a # b # q) = (rev cur @ p) # split2 a b [] q"
proof (induction p arbitrary: cur)
  case Nil
  show ?case by simp
next
  case (Cons c p)
  then have c: "c \<noteq> a" and p: "a \<notin> set p" by auto
  show ?case
  proof (cases p)
    case Nil
    with c Cons.IH[OF p, of "c # cur"] show ?thesis by simp
  next
    case (Cons d p')
    with c Cons.IH[OF p, of "c # cur"] show ?thesis by simp
  qed
qed

lemma strip_no_space: "\<forall>c \<in> set s. \<not> isspace c \<Longrightarrow> strip s = s"
proof -
  assume a: "\<forall>c \<in> set s. \<not> isspace c"
  have "dropWhile isspace (rev s) = rev s"
    using a by (cases "rev s") (auto simp: in_set_conv_decomp)
  then have "rstrip s = s" by (simp add: rstrip_def)
  moreover have "dropWhile isspace s = s"
    using a by (cases s) auto
  ultimately show ?thesis by (simp add: strip_def)
qed

lemma isdigit_facts:
  assumes "isdigit c"
  shows "\<not> isspace c" "c \<noteq> CHR ''T''"
  using assms by (auto simp: isdigit_def isdecimal_def isspace_def)

lemma digits_text:
  assumes "list_all isdigit s"
  shows "strip s = s" "CHR ''T'' \<notin> set s"
proof -
  show "strip s = s"
    using assms by (intro strip_no_space) (auto simp: list_all_iff isdigit_facts)
  show "CHR ''T'' \<notin> set s"
    using assms isdigit_facts(2) by (auto simp: list_all_iff)
qed

lemma url_parts:
  assumes "CHR ''T'' \<notin> set (py_str i)" "CHR ''T'' \<notin> set stg"
  shows "split2 CHR ''T'' CHR ''G'' [] (repeater_url i @ '' TG'' @ stg)
           = [repeater_url i @ '' '', stg]"
proof -
  have "CHR ''T'' \<notin> set (repeater_url i @ '' '')"
    using assms(1) by (simp add: repeater_url_def)
  from split2_first[OF this, of "CHR ''G''" "[]" stg] split2_none[OF assms(2), of "CHR ''G''" "[]"]
  show ?thesis by simp
qed

lemma url_has_tg: "py_in ''TG'' (repeater_url i @ '' TG'' @ stg)"
proof -
  have "sublist ''TG'' ((repeater_url i @ '' '') @ ''TG'' @ stg)" by (rule sublist_appendI)
  then show ?thesis by (simp add: py_in_sublist)
qed

lemma url_tg_id_ok:
  assumes "CHR ''T'' \<notin> set (py_str i)" "list_all isdigit stg"
  shows "url_tg_id (repeater_url i @ '' TG'' @ stg) = Some stg"
  using url_parts[OF assms(1) digits_text(2)[OF assms(2)]] digits_text(1)[OF assms(2)]
  by (simp add: url_tg_id_def)

subsection \<open>The slot column\<close>


lemma slot_talkgroup:
  assumes "a_talkgroups a" "CHR ''T'' \<notin> set (py_str (id it))" "list_all isdigit (py_str t)"
  shows "r_slot (channel_row a tgs nm fl tbl i (format_talkgroup_channel it t s))
           = tg_slot tgs fl (tx it) (rx it) (py_str t)"
    and "r_contact_id (channel_row a tgs nm fl tbl i (format_talkgroup_channel it t s)) = py_str t"
  using assms(1) url_has_tg[of "id it" "py_str t"] url_tg_id_ok[OF assms(2,3)]
  by (simp_all add: channel_row_def Let_def format_talkgroup_channel_def)






subsection \<open>The ids of the selected repeaters\<close>

lemma parse_digits_chars:
  "parse_digits acc pd cs = Some v \<Longrightarrow> \<forall>c \<in> set cs. isdecimal c \<or> c = CHR ''_''"
  by (induction cs arbitrary: acc pd) (auto split: if_splits)

lemma dropWhile_cover: "x \<in> set xs \<Longrightarrow> P x \<or> x \<in> set (dropWhile P xs)"
  by (induction xs) auto

lemma int_strip_cover: "x \<in> set s \<Longrightarrow> int_space x \<or> x \<in> set (int_strip s)"
  using dropWhile_cover[of x "rev s" int_space]
    dropWhile_cover[of x "rev (dropWhile int_space (rev s))" int_space]
  by (auto simp: int_strip_def)

lemma letter_T: "\<not> int_space CHR ''T''" "\<not> isdecimal CHR ''T''"
  by (simp_all add: int_space_def isdecimal_def)

lemma int_of_str_no_T:
  assumes "int_of_str s = Some i"
  shows "CHR ''T'' \<notin> set s"
proof
  assume "CHR ''T'' \<in> set s"
  with int_strip_cover[of "CHR ''T''" s] letter_T(1)
  have t: "CHR ''T'' \<in> set (int_strip s)" by blast
  then obtain c r where cr: "int_strip s = c # r" by (cases "int_strip s") auto
  show False
  proof (cases "c = CHR ''-'' \<or> c = CHR ''+''")
    case True
    with assms cr obtain v where "parse_digits 0 False r = Some v"
      by (auto simp: int_of_str_def split: if_splits)
    from parse_digits_chars[OF this] t cr True letter_T(2) show False by auto
  next
    case False
    with assms cr obtain v where "parse_digits 0 False (c # r) = Some v"
      by (auto simp: int_of_str_def split: if_splits)
    from parse_digits_chars[OF this] t cr letter_T(2) show False by auto
  qed
qed

lemma py_int_no_T:
  assumes "py_int v = Inr i"
  shows "CHR ''T'' \<notin> set (py_str v)"
proof (cases v)
  case JNull
  with assms show ?thesis by simp
next
  case (JInt k)
  have "CHR ''T'' \<notin> set (str_nat n)" for n
    using str_nat_digits[of n] letter_T(2) by (auto simp: list_all_iff)
  then show ?thesis using JInt by (simp add: str_int_def)
next
  case (JStr s)
  with assms obtain j where "int_of_str s = Some j" by (auto split: option.splits)
  from int_of_str_no_T[OF this] JStr show ?thesis by simp
qed

lemma sort_keys_ints:
  "sort_keys raw = Inr ks \<Longrightarrow> \<forall>k \<in> set raw. \<exists>i. py_int (id k) = Inr i"
  by (induction raw arbitrary: ks) (auto split: sum.splits)

lemma filter_loop_ids:
  "filter_loop far a sl fl ex = Inr (fl', ex') \<Longrightarrow>
     id ` set fl' \<subseteq> id ` set fl \<union> id ` set sl"
proof (induction sl arbitrary: fl ex)
  case Nil
  then show ?case by auto
next
  case (Cons it rest)
  show ?case
  proof (cases "passes far a it")
    case (Inl e)
    with Cons.prems show ?thesis by simp
  next
    case (Inr b)
    show ?thesis
    proof (cases b)
      case False
      with Inr Cons.prems have "filter_loop far a rest fl ex = Inr (fl', ex')" by simp
      from Cons.IH[OF this] show ?thesis by auto
    next
      case True
      show ?thesis
      proof (cases "normalize it")
        case (Inl e)
        with Inr True Cons.prems show ?thesis by simp
      next
        case nr: (Inr cs)
        show ?thesis
        proof (cases "list_ex (same_triple it cs) fl")
          case dup: True
          with Inr \<open>b\<close> nr Cons.prems have "filter_loop far a rest fl ex = Inr (fl', ex')" by simp
          from Cons.IH[OF this] show ?thesis by auto
        next
          case new: False
          with Inr \<open>b\<close> nr Cons.prems
          have "filter_loop far a rest (fl @ [retain it cs (cnt ex cs + 1)])
                  (ex(cs \<mapsto> cnt ex cs + 1)) = Inr (fl', ex')"
            by (simp add: cnt_def Let_def)
          from Cons.IH[OF this] show ?thesis by (auto simp: retain_def)
        qed
      qed
    qed
  qed
qed

text \<open>
  Every id that the sort of the selection has read as an integer is printed without the
  letter T, so the hypothesis on the repeater ids in the properties of talkgroup mode
  holds for every list that the selection returns.
\<close>

lemma selected_ids_without_T:
  assumes "filter_list far a raw = Inr fl" "r \<in> set fl"
  shows "CHR ''T'' \<notin> set (py_str (id r))"
proof -
  from filter_list_loop[OF assms(1)] obtain sl ex where
    sl: "sorted_list raw = Inr sl" and lp: "filter_loop far a sl [] Map.empty = Inr (fl, ex)"
    by blast
  from sl obtain ks where ks: "sort_keys raw = Inr ks"
    by (auto simp: sorted_list_def split: sum.splits)
  from sorted_list_ok(1)[OF sl] have "set sl = set raw" by (metis set_mset_mset)
  with filter_loop_ids[OF lp] assms(2) obtain k where "k \<in> set raw" "id r = id k" by auto
  with sort_keys_ints[OF ks] obtain i where "py_int (id r) = Inr i" by auto
  then show ?thesis by (rule py_int_no_T)
qed

subsection \<open>The talkgroups table\<close>

lemma str_int_nat: "str_int (int n) = str_nat n"
  by (simp add: str_int_def)

lemma decimal_isdigit: "isdecimal c \<Longrightarrow> isdigit c"
  by (simp add: isdigit_def)

lemma str_nat_isdigit: "list_all isdigit (str_nat n)"
  using str_nat_digits[of n] by (auto simp: list_all_iff decimal_isdigit)

lemma numeric_nat: "filter isdigit (py_str (JInt (int n))) = str_nat n"
  using str_nat_isdigit[of n] by (simp add: str_int_nat list_all_iff)

lemma str_nat_inj: "str_nat m = str_nat n \<Longrightarrow> m = n"
  by (metis dec_value_str_nat)

lemma count_list_distinct:
  "distinct xs \<Longrightarrow> count_list xs x = (if x \<in> set xs then 1 else 0)"
  by (induction xs) auto

lemma new_rows_ids:
  "map (\<lambda>r. r ! 1) (new_rows nm rows E S acc) =
     map (\<lambda>r. r ! 1) acc @
     filter (\<lambda>x. x \<noteq> [] \<and> x \<notin> set E) (map (\<lambda>v. filter isdigit (py_str v)) S)"
  by (induction S arbitrary: acc) (simp_all add: Let_def)

lemma new_rows_shape:
  "r \<in> set (new_rows nm rows E S acc) \<Longrightarrow> r \<in> set acc \<or> (length r = 5 \<and> r ! 1 \<noteq> [])"
proof (induction S arbitrary: acc)
  case Nil
  then show ?case by simp
next
  case (Cons v S)
  show ?case
  proof (cases "filter isdigit (py_str v) \<noteq> [] \<and> filter isdigit (py_str v) \<notin> set E")
    case True
    with Cons.prems Cons.IH[of "acc @ [[str_nat (length rows + length acc),
        filter isdigit (py_str v), fetch_name nm (filter isdigit (py_str v)),
        ''Group Call'', ''None'']]"]
    show ?thesis by (auto simp: Let_def)
  next
    case False
    with Cons.prems Cons.IH[of acc] show ?thesis by (auto simp: Let_def)
  qed
qed

lemma existing_append:
  assumes "rows \<noteq> []" "\<forall>r \<in> set new. length r > 1 \<and> r ! 1 \<noteq> []"
  shows "existing_tg_ids (rows @ new) = existing_tg_ids rows @ map (\<lambda>r. r ! 1) new"
proof -
  have "drop 1 (rows @ new) = drop 1 rows @ new" using assms(1) by (cases rows) simp_all
  moreover have "filter (\<lambda>row. length row > 1 \<and> row ! 1 \<noteq> []) new = new"
    using assms(2) by (simp add: filter_id_conv)
  ultimately show ?thesis by (simp add: existing_tg_ids_def)
qed

lemma table_append:
  assumes "rows \<noteq> []"
  shows "(if length (take 2 rows) = 1 then take 2 rows @ drop 1 rows @ new
          else take 2 rows @ drop 2 rows @ new) = rows @ new"
proof (cases "length (take 2 rows) = 1")
  case True
  then have "min (length rows) 2 = 1" by simp
  then have "length rows = 1" by (simp add: min_def split: if_splits)
  then show ?thesis using True by simp
next
  case False
  then show ?thesis by simp
qed


lemma ids_sorted:
  assumes "\<forall>v \<in> set U. \<exists>n. v = JInt (int n)" "distinct U"
  shows "\<exists>S. sorted_json U = Inr S \<and> set S = set U \<and> distinct S \<and> sorted (map the_int S)"
proof (cases "length U \<le> 1")
  case True
  then have "sorted (map the_int U)" by (cases U) (auto simp: Suc_le_eq)
  with True assms(2) show ?thesis by (simp add: sorted_json_def)
next
  case False
  have "list_all is_int U" using assms(1) by (auto simp: list_all_iff is_int_def)
  with False have "sorted_json U = Inr (sort_key the_int U)" by (simp add: sorted_json_def)
  with assms(2) show ?thesis by simp
qed

lemma nat_ids_strict:
  assumes "\<forall>v \<in> set S. \<exists>n. v = JInt (int n)" "distinct S" "sorted (map the_int S)"
  shows "map (\<lambda>v. filter isdigit (py_str v)) S = map str_nat (map (\<lambda>v. nat (the_int v)) S)"
    and "sorted_wrt (<) (map (\<lambda>v. nat (the_int v)) S)"
proof -
  show "map (\<lambda>v. filter isdigit (py_str v)) S = map str_nat (map (\<lambda>v. nat (the_int v)) S)"
    using assms(1) numeric_nat by auto
  have inj: "inj_on (\<lambda>v. nat (the_int v)) (set S)"
  proof (rule inj_onI)
    fix x y assume x: "x \<in> set S" and y: "y \<in> set S"
      and e: "nat (the_int x) = nat (the_int y)"
    from assms(1) x y obtain m n where "x = JInt (int m)" "y = JInt (int n)" by blast
    with e show "x = y" by simp
  qed
  have d: "distinct (map (\<lambda>v. nat (the_int v)) S)"
    using assms(2) inj by (simp add: distinct_map)
  have "sorted_wrt (\<lambda>x y. the_int x \<le> the_int y) S"
    using assms(3) by (simp add: sorted_map)
  then have "sorted_wrt (\<lambda>x y. nat (the_int x) \<le> nat (the_int y)) S"
    by (rule sorted_wrt_mono_rel[rotated]) (simp add: nat_mono)
  then have "sorted (map (\<lambda>v. nat (the_int v)) S)" by (simp add: sorted_map)
  with d show "sorted_wrt (<) (map (\<lambda>v. nat (the_int v)) S)"
    by (simp add: strict_sorted_iff)
qed


lemma tg_rows_generated:
  assumes "row \<in> set (write_channels_csv a tgs nm fl tbl (process_channels_tg tgs fl))"
  shows "\<exists>i it t s. it \<in> set fl \<and> (t, s) \<in> set (tgs (id it)) \<and>
           row = channel_row a tgs nm fl tbl i (format_talkgroup_channel it t s)"
proof -
  from assms obtain i ch where ch: "ch \<in> set (process_channels_tg tgs fl)"
    and row: "row = channel_row a tgs nm fl tbl i ch"
    by (auto simp: write_channels_csv_def dest: set_enumerate1)
  from ch obtain it t s where "it \<in> set fl" "(t, s) \<in> set (tgs (id it))"
    "ch = format_talkgroup_channel it t s"
    by (auto simp: process_channels_tg_def)
  with row show ?thesis by blast
qed

text \<open>
  C8, as amended. In talkgroup mode, let the talkgroups table that is read be not empty
  and hold no Radio ID twice below its first row, let every talkgroup id that the lookup
  returns for a selected repeater be a non-negative integer, and let the repeater ids be
  printed without the letter T. Then the emitted table is the table read followed by new
  rows, whose Radio IDs are not in the table read and ascend as numbers, and the contact
  id of every row of the channels table occurs exactly once among the Radio IDs of the
  emitted table.
\<close>

theorem talkgroup_ids_once:
  assumes tg: "a_talkgroups a"
    and rows: "rows \<noteq> []"
    and dist: "distinct (existing_tg_ids rows)"
    and ids: "\<forall>it \<in> set fl. \<forall>p \<in> set (tgs (id it)). \<exists>n. fst p = JInt (int n)"
    and rid: "\<forall>it \<in> set fl. CHR ''T'' \<notin> set (py_str (id it))"
  shows "\<exists>new. update_talkgroups tgs nm fl (Some rows) = Some (rows @ new) \<and>
           (\<forall>r \<in> set new. r ! 1 \<notin> set (existing_tg_ids rows)) \<and>
           sorted_wrt (<) (map (\<lambda>r. dec_value (r ! 1)) new) \<and>
           (\<forall>row \<in> set (write_channels_csv a tgs nm fl (Some (rows @ new))
                           (process_channels_tg tgs fl)).
               count_list (existing_tg_ids (rows @ new)) (r_contact_id row) = 1)"
proof -
  define U where "U = unique_talkgroups tgs fl"
  define E where "E = existing_tg_ids rows"
  have Uset: "set U = (\<Union>it \<in> set fl. fst ` set (tgs (id it)))"
    by (auto simp: U_def unique_talkgroups_def)
  have Unat: "\<forall>v \<in> set U. \<exists>n. v = JInt (int n)"
    using ids unfolding Uset by auto
  have Udist: "distinct U" by (simp add: U_def unique_talkgroups_def)
  from ids_sorted[OF Unat Udist] obtain S where
    S: "sorted_json U = Inr S" and Sset: "set S = set U" and Sdist: "distinct S"
    and Ssorted: "sorted (map the_int S)" by blast
  have Snat: "\<forall>v \<in> set S. \<exists>n. v = JInt (int n)" using Unat Sset by simp
  define ns where "ns = map (\<lambda>v. nat (the_int v)) S"
  note num = nat_ids_strict[OF Snat Sdist Ssorted, folded ns_def]
  define new where "new = new_rows nm rows E S []"
  define keep where "keep = filter (\<lambda>n. str_nat n \<noteq> [] \<and> str_nat n \<notin> set E) ns"
  have upd: "update_talkgroups tgs nm fl (Some rows) = Some (rows @ new)"
    using rows S table_append[OF rows, of new]
    by (simp add: update_talkgroups_def Let_def U_def[symmetric] E_def[symmetric] new_def)
  have N: "map (\<lambda>r. r ! 1) new = map str_nat keep"
    unfolding new_def keep_def new_rows_ids num(1) by (simp add: filter_map comp_def)
  have shape: "\<forall>r \<in> set new. length r > 1 \<and> r ! 1 \<noteq> []"
    using new_rows_shape[of _ nm rows E S "[]"] unfolding new_def by auto
  have E': "existing_tg_ids (rows @ new) = E @ map str_nat keep"
    using existing_append[OF rows shape] unfolding N E_def .
  have keep_sorted: "sorted_wrt (<) keep"
    unfolding keep_def using num(2) by (rule sorted_wrt_filter)
  have notin: "\<forall>r \<in> set new. r ! 1 \<notin> set E"
  proof
    fix r assume "r \<in> set new"
    then have "r ! 1 \<in> set (map (\<lambda>r. r ! 1) new)" by simp
    then show "r ! 1 \<notin> set E" unfolding N keep_def by auto
  qed
  have "map (\<lambda>r. dec_value (r ! 1)) new = map dec_value (map (\<lambda>r. r ! 1) new)" by simp
  also have "\<dots> = keep" unfolding N by (simp add: dec_value_str_nat comp_def)
  finally have sorted_new: "sorted_wrt (<) (map (\<lambda>r. dec_value (r ! 1)) new)"
    using keep_sorted by simp
  have keep_dist: "distinct (map str_nat keep)"
    using keep_sorted by (auto simp: distinct_map strict_sorted_iff inj_on_def dest: str_nat_inj)
  have once: "count_list (existing_tg_ids (rows @ new)) (r_contact_id row) = 1"
    if "row \<in> set (write_channels_csv a tgs nm fl (Some (rows @ new))
                     (process_channels_tg tgs fl))" for row
  proof -
    from tg_rows_generated[OF that] obtain i it t s where
      it: "it \<in> set fl" and p: "(t, s) \<in> set (tgs (id it))"
      and row: "row = channel_row a tgs nm fl (Some (rows @ new)) i
                        (format_talkgroup_channel it t s)" by blast
    from ids it p obtain n where t: "t = JInt (int n)" by force
    have tU: "t \<in> set U" unfolding Uset using it p by force
    have dig: "list_all isdigit (py_str t)" unfolding t by (simp add: str_int_nat str_nat_isdigit)
    have cid: "r_contact_id row = str_nat n"
      unfolding row using slot_talkgroup(2)[OF tg rid[rule_format, OF it] dig]
      by (simp add: t str_int_nat)
    have nin: "n \<in> set ns" unfolding ns_def using tU Sset t by force
    show ?thesis
    proof (cases "str_nat n \<in> set E")
      case True
      then have "str_nat n \<notin> set (map str_nat keep)"
        unfolding keep_def by (auto dest: str_nat_inj)
      with True dist show ?thesis
        unfolding E' cid by (simp add: count_list_distinct E_def)
    next
      case False
      have "str_nat n \<noteq> []" using str_nat_digits[of n] by simp
      with False nin have "str_nat n \<in> set (map str_nat keep)"
        unfolding keep_def by simp
      with False keep_dist show ?thesis
        unfolding E' cid by (simp add: count_list_distinct)
    qed
  qed
  from upd notin sorted_new once show ?thesis unfolding E_def by blast
qed


theorem talkgroup_ids_once_witness:
  "a_talkgroups (mk_args 160 True) \<and> tg_header \<noteq> [] \<and> distinct (existing_tg_ids tg_header) \<and>
   list_all (\<lambda>it. list_all (\<lambda>p. \<exists>n. fst p = JInt (int n)) (tgs_nine (id it))) [ny_repeater] \<and>
   list_all (\<lambda>it. CHR ''T'' \<notin> set (py_str (id it))) [ny_repeater] \<and>
   update_talkgroups tgs_nine (\<lambda>_. None) [ny_repeater] (Some tg_header)
     = Some (tg_header @ [[''1'', ''9'', ''9'', ''Group Call'', ''None'']]) \<and>
   list_all (\<lambda>row. count_list
                (existing_tg_ids (tg_header @ [[''1'', ''9'', ''9'', ''Group Call'', ''None'']]))
                (r_contact_id row) = 1)
     (write_channels_csv (mk_args 160 True) tgs_nine (\<lambda>_. None) [ny_repeater]
        (Some (tg_header @ [[''1'', ''9'', ''9'', ''Group Call'', ''None'']]))
        (process_channels_tg tgs_nine [ny_repeater]))"
proof -
  have h1: "a_talkgroups (mk_args 160 True)" by (simp add: mk_args_def)
  have h2: "tg_header \<noteq> []" by (simp add: tg_header_def)
  have h3: "distinct (existing_tg_ids tg_header)"
    by (simp add: tg_header_def existing_tg_ids_def)
  have nine: "JInt 9 = JInt (int 9)" by simp
  have h4: "\<forall>it \<in> set [ny_repeater]. \<forall>p \<in> set (tgs_nine (id it)). \<exists>n. fst p = JInt (int n)"
    using nine by (auto simp: tgs_nine_def)
  have h5: "\<forall>it \<in> set [ny_repeater]. CHR ''T'' \<notin> set (py_str (id it))"
    by (simp add: tg_example_eval prim_eval example_eval)
  have u: "update_talkgroups tgs_nine (\<lambda>_. None) [ny_repeater] (Some tg_header)
     = Some (tg_header @ [[''1'', ''9'', ''9'', ''Group Call'', ''None'']])"
    by (simp add: tg_eval tg_example_eval prim_eval example_eval Let_def)
  from talkgroup_ids_once[OF h1 h2 h3 h4 h5, of "\<lambda>_. None"] obtain new where
    n: "update_talkgroups tgs_nine (\<lambda>_. None) [ny_repeater] (Some tg_header)
          = Some (tg_header @ new)"
    and c: "\<forall>row \<in> set (write_channels_csv (mk_args 160 True) tgs_nine (\<lambda>_. None) [ny_repeater]
                           (Some (tg_header @ new)) (process_channels_tg tgs_nine [ny_repeater])).
               count_list (existing_tg_ids (tg_header @ new)) (r_contact_id row) = 1"
    by blast
  from n u have new: "new = [[''1'', ''9'', ''9'', ''Group Call'', ''None'']]" by simp
  from c have c': "list_all (\<lambda>row. count_list
                (existing_tg_ids (tg_header @ [[''1'', ''9'', ''9'', ''Group Call'', ''None'']]))
                (r_contact_id row) = 1)
     (write_channels_csv (mk_args 160 True) tgs_nine (\<lambda>_. None) [ny_repeater]
        (Some (tg_header @ [[''1'', ''9'', ''9'', ''Group Call'', ''None'']]))
        (process_channels_tg tgs_nine [ny_repeater]))"
    unfolding new by (simp add: list_all_iff)
  have h4': "list_all (\<lambda>it. list_all (\<lambda>p. \<exists>n. fst p = JInt (int n)) (tgs_nine (id it)))
      [ny_repeater]" using h4 by (simp add: list_all_iff)
  have h5': "list_all (\<lambda>it. CHR ''T'' \<notin> set (py_str (id it))) [ny_repeater]"
    using h5 by (simp add: list_all_iff)
  from h1 h2 h3 h4' h5' u c' show ?thesis by blast
qed

text \<open>
  C8, as stated, fails: a talkgroups table that holds the id 9 twice is emitted as it is,
  and the channel of talkgroup 9 finds its id twice; without a table to read none is
  emitted; and ids of two kinds (an integer and a text) cannot be sorted, so the table is
  left without the new ids and the channels of talkgroups 9 and 10 find no row. Ids that
  are texts are appended in the order of their characters, 10 before 9, and the integers
  -9 and 9 both give a new row with the Radio ID 9.
\<close>

theorem talkgroup_id_twice_or_missing:
  "update_talkgroups tgs_nine (\<lambda>_. None) [ny_repeater] (Some tg_dup_table) = Some tg_dup_table \<and>
   map r_contact_id
     (write_channels_csv (mk_args 160 True) tgs_nine (\<lambda>_. None) [ny_repeater] (Some tg_dup_table)
        (process_channels_tg tgs_nine [ny_repeater])) = [''9''] \<and>
   count_list (existing_tg_ids tg_dup_table) ''9'' = 2 \<and>
   update_talkgroups tgs_nine (\<lambda>_. None) [ny_repeater] None = None \<and>
   update_talkgroups tgs_mixed (\<lambda>_. None) [ny_repeater] (Some tg_header) = Some tg_header \<and>
   map r_contact_id
     (write_channels_csv (mk_args 160 True) tgs_mixed (\<lambda>_. None) [ny_repeater] (Some tg_header)
        (process_channels_tg tgs_mixed [ny_repeater])) = [''9'', ''10''] \<and>
   count_list (existing_tg_ids tg_header) ''9'' = 0 \<and>
   map_option existing_tg_ids
     (update_talkgroups tgs_texts (\<lambda>_. None) [ny_repeater] (Some tg_header))
     = Some [''10'', ''9''] \<and>
   map_option existing_tg_ids
     (update_talkgroups tgs_signed (\<lambda>_. None) [ny_repeater] (Some tg_header))
     = Some [''9'', ''9'']"
  by (simp add: tg_eval tg_example_eval prim_eval std_eval example_eval tg_dup_table_def
      tgs_mixed_def tgs_texts_def tgs_signed_def Let_def)

end
